theory Spec2Isabelle
  imports Complex_Main
begin

section \<open>Segmentation metrics of \<open>metric.py\<close> (class \<open>Measurement\<close>)\<close>

text \<open>
  The module turns a batch of class scores \<open>pred\<close> of shape \<open>(N, C, H, W)\<close> and a batch
  of integer labels \<open>target\<close> of shape \<open>(N, H, W)\<close> into a confusion matrix of shape
  \<open>(N, C, C)\<close> and reads accuracy, IoU, precision, recall and F1 from it.

  Conventions of the embedding.
  \<^item> An n-dimensional array is a nested list, outermost axis first. Arrays are rectangular
    by construction in numpy; here the shape is a predicate on the nested list and a
    hypothesis of the theorems.
  \<^item> Scores are only ever compared (by \<open>argmax\<close>), so their type is any linear order.
  \<^item> The label array has an integer dtype. Its elements are modelled by their values, of
    type \<open>int\<close>, and the dtype is passed along with the array wherever the module computes
    with labels: the result of such an operation is reduced to the range of its dtype, as
    numpy does silently.
  \<^item> Counts are modelled as \<open>int\<close>; the 64-bit range of numpy's counters is not modelled
    (a count never exceeds the number of pixels).
  \<^item> A \<open>float64\<close> result is a \<open>real option\<close>: \<open>Some x\<close> is the finite value \<open>x\<close>
    computed in exact real arithmetic (rounding is not modelled), \<open>None\<close> is a non-finite
    result (\<open>nan\<close> or an infinity), which is what numpy produces for a division by
    zero and for the mean of an empty array, and which every later sum, mean and quotient
    of this module keeps non-finite.
  \<^item> A raised exception is the \<open>Inl\<close> branch of a sum type.
  \<^item> Functions keep the names of the source, except that \<open>_make_confusion_matrix\<close> loses
    its underscore and \<open>measure\<close> is \<open>measure_metrics\<close> (\<open>measure\<close> is a constant of HOL).
\<close>

subsection \<open>Data model\<close>

datatype error = AssertionError | ValueError | IndexError | OverflowError | TypeError

text \<open>The integer dtypes of numpy, with their width and signedness, and the reduction of an
  integer to the range of a dtype (two's complement wrap-around).\<close>

datatype int_dtype = Int8 | Int16 | Int32 | Int64 | UInt8 | UInt16 | UInt32 | UInt64

fun dtype_bits :: "int_dtype \<Rightarrow> nat" where
  "dtype_bits Int8 = 8"
| "dtype_bits Int16 = 16"
| "dtype_bits Int32 = 32"
| "dtype_bits Int64 = 64"
| "dtype_bits UInt8 = 8"
| "dtype_bits UInt16 = 16"
| "dtype_bits UInt32 = 32"
| "dtype_bits UInt64 = 64"

fun dtype_signed :: "int_dtype \<Rightarrow> bool" where
  "dtype_signed Int8 = True"
| "dtype_signed Int16 = True"
| "dtype_signed Int32 = True"
| "dtype_signed Int64 = True"
| "dtype_signed UInt8 = False"
| "dtype_signed UInt16 = False"
| "dtype_signed UInt32 = False"
| "dtype_signed UInt64 = False"

definition dtype_min :: "int_dtype \<Rightarrow> int" where
  "dtype_min dt = (if dtype_signed dt then - (2 ^ (dtype_bits dt - 1)) else 0)"

definition dtype_max :: "int_dtype \<Rightarrow> int" where
  "dtype_max dt = (if dtype_signed dt then 2 ^ (dtype_bits dt - 1) - 1 else 2 ^ dtype_bits dt - 1)"

definition wrap :: "int_dtype \<Rightarrow> int \<Rightarrow> int" where
  "wrap dt x = (x - dtype_min dt) mod 2 ^ dtype_bits dt + dtype_min dt"

type_synonym npfloat = "real option"

record Measurement =
  num_classes :: nat
  ignore_idx :: "int option"

subsection \<open>The numpy primitives the module calls\<close>

text \<open>True division of two numbers: a zero divisor gives a non-finite value.\<close>

definition np_div :: "real \<Rightarrow> real \<Rightarrow> npfloat" where
  "np_div a b = (if b = 0 then None else Some (a / b))"

text \<open>\<open>np.mean\<close> of a one-dimensional array: non-finite for the empty array and as soon as
  one element is non-finite.\<close>

definition np_mean :: "npfloat list \<Rightarrow> npfloat" where
  "np_mean xs =
     (if xs = [] \<or> None \<in> set xs then None
      else Some (sum_list (map the xs) / real (length xs)))"

text \<open>\<open>argmax\<close> of a non-empty sequence scans from the left and moves to a later index only
  on a strictly larger element, so it returns the first index attaining the maximum.
  \<open>argmax_scan best mx i xs\<close>: \<open>best\<close> is the index of the largest element \<open>mx\<close> seen so
  far and \<open>i\<close> the index of the head of the remaining elements \<open>xs\<close>.\<close>

fun argmax_scan :: "nat \<Rightarrow> 'a::linorder \<Rightarrow> nat \<Rightarrow> 'a list \<Rightarrow> nat" where
  "argmax_scan best mx i [] = best"
| "argmax_scan best mx i (x # xs) =
     (if mx < x then argmax_scan i x (Suc i) xs else argmax_scan best mx (Suc i) xs)"

text \<open>\<open>argmax\<close> over the class axis of one batch item of shape \<open>(C, H, W)\<close>; numpy raises
  \<open>ValueError\<close> for an empty class axis.\<close>

definition argmax_axis0 :: "'a::linorder list list list \<Rightarrow> error + nat list list" where
  "argmax_axis0 item =
     (case item of
        [] \<Rightarrow> Inl ValueError
      | ch0 # chs \<Rightarrow>
          Inr (map (\<lambda>h. map (\<lambda>w. argmax_scan 0 (ch0 ! h ! w) 1 (map (\<lambda>ch. ch ! h ! w) chs))
                            [0..<length (ch0 ! h)])
                   [0..<length ch0]))"

fun sequence_err :: "(error + 'a) list \<Rightarrow> error + 'a list" where
  "sequence_err [] = Inr []"
| "sequence_err (x # xs) =
     (case x of
        Inl e \<Rightarrow> Inl e
      | Inr v \<Rightarrow> (case sequence_err xs of Inl e \<Rightarrow> Inl e | Inr vs \<Rightarrow> Inr (v # vs)))"

text \<open>\<open>pred.argmax(axis=1)\<close> on shape \<open>(N, C, H, W)\<close>.\<close>

definition argmax_axis1 :: "'a::linorder list list list list \<Rightarrow> error + nat list list list" where
  "argmax_axis1 pred = sequence_err (map argmax_axis0 pred)"

text \<open>\<open>np.bincount(x, minlength)\<close>: a negative element raises \<open>ValueError\<close>; otherwise a
  counter array of \<open>max minlength (max x + 1)\<close> zeros is allocated and the counter of each
  element of \<open>x\<close> is incremented in turn.\<close>

definition bincount :: "int list \<Rightarrow> nat \<Rightarrow> error + int list" where
  "bincount x minlength =
     (if \<exists>v \<in> set x. v < 0 then Inl ValueError
      else Inr (fold (\<lambda>v acc. acc[nat v := acc ! nat v + 1]) x
                  (replicate (fold (\<lambda>v b. max b (Suc (nat v))) x minlength) 0)))"

text \<open>\<open>np.reshape\<close> of one row of \<open>r * c\<close> numbers to shape \<open>(r, c)\<close>.\<close>

definition reshape2 :: "nat \<Rightarrow> nat \<Rightarrow> 'a list \<Rightarrow> 'a list list" where
  "reshape2 r c xs = map (\<lambda>i. take c (drop (i * c) xs)) [0..<r]"

text \<open>\<open>np.sum(conf_mat, -2)\<close> and \<open>np.sum(conf_mat, -1)\<close> on shape \<open>(N, C, C)\<close>: the column
  sums and the row sums of every batch item, both of shape \<open>(N, C)\<close>.\<close>

definition ncols :: "'a list list \<Rightarrow> nat" where
  "ncols item = (case item of [] \<Rightarrow> 0 | r # _ \<Rightarrow> length r)"

definition sum_axis_m2 :: "int list list list \<Rightarrow> int list list" where
  "sum_axis_m2 conf_mat =
     map (\<lambda>item. map (\<lambda>j. sum_list (map (\<lambda>row. row ! j) item)) [0..<ncols item]) conf_mat"

definition sum_axis_m1 :: "int list list list \<Rightarrow> int list list" where
  "sum_axis_m1 conf_mat = map (map sum_list) conf_mat"

text \<open>Indexing \<open>conf_mat[:, i, i]\<close> raises \<open>IndexError\<close> unless \<open>i\<close> is below both trailing
  dimensions. (A nested list does not record the trailing dimensions of an empty batch, so
  for \<open>N = 0\<close> the check passes.)\<close>

definition index_ok :: "'a list list list \<Rightarrow> nat \<Rightarrow> bool" where
  "index_ok conf_mat i = (\<forall>item \<in> set conf_mat. i < length item \<and> (\<forall>row \<in> set item. i < length row))"

subsection \<open>\<open>Measurement._make_confusion_matrix\<close>\<close>

text \<open>
  The assertion on the batch sizes comes first. \<open>np.reshape(_, (N, -1))\<close> raises
  \<open>ValueError\<close> for \<open>N = 0\<close> (as \<open>np.apply_along_axis\<close> would).

  The category codes are \<open>self.num_classes * target_1d + pred_1d\<close>, and numpy evaluates
  this in two steps.
  \<^item> \<open>self.num_classes * target_1d\<close> multiplies a Python integer and the label array. The
    product has the dtype of the label array and wraps around in it: nothing is raised
    when a product leaves the range of that dtype. A Python integer that is itself outside
    the range of the dtype raises \<open>OverflowError\<close> (NumPy 2; NumPy 1 computes the product
    in a wider dtype instead).
  \<^item> \<open>_ + pred_1d\<close> adds the result of \<open>argmax\<close>, an array of dtype \<open>int64\<close>. The two
    arrays need equal row lengths (numpy's broadcasting of an axis of size one is outside
    the input contract and reported as \<open>ValueError\<close> here). The sum of an array of a
    narrower or signed integer dtype and an \<open>int64\<close> array is computed in \<open>int64\<close>; the
    sum of a \<open>uint64\<close> and an \<open>int64\<close> array is a \<open>float64\<close> array, which \<open>np.bincount\<close>
    rejects with \<open>TypeError\<close>.

  \<open>np.apply_along_axis\<close> needs every histogram to be as long as the first one, and the
  final reshape needs that length to be \<open>C\<^sup>2\<close>; both failures are \<open>ValueError\<close>.

  \<open>target_dtype\<close> is the dtype of the array \<open>target\<close>.
\<close>

definition make_confusion_matrix ::
  "Measurement \<Rightarrow> 'a::linorder list list list list \<Rightarrow> int_dtype \<Rightarrow> int list list list
     \<Rightarrow> error + int list list list" where
  "make_confusion_matrix self pred target_dtype target =
     (if length pred \<noteq> length target then Inl AssertionError
      else
        (case argmax_axis1 pred of
           Inl e \<Rightarrow> Inl e
         | Inr pred_label \<Rightarrow>
             if length pred = 0 then Inl ValueError
             else
               let pred_1d = map concat pred_label;
                   target_1d = map concat target
               in if int (num_classes self) < dtype_min target_dtype
                     \<or> dtype_max target_dtype < int (num_classes self)
                  then Inl OverflowError
                  else
                    let scaled = map (map (\<lambda>tv. wrap target_dtype (int (num_classes self) * tv)))
                                   target_1d
                    in if map length pred_1d \<noteq> map length target_1d then Inl ValueError
                       else if target_dtype = UInt64 then Inl TypeError
                       else
                         let cats = map2 (\<lambda>s p. map2 (\<lambda>sv pv. wrap Int64 (sv + int pv)) s p)
                                      scaled pred_1d
                         in (case sequence_err (map (\<lambda>x. bincount x ((num_classes self)\<^sup>2)) cats) of
                               Inl e \<Rightarrow> Inl e
                             | Inr hists \<Rightarrow>
                                 if \<exists>h \<in> set hists. length h \<noteq> (num_classes self)\<^sup>2
                                 then Inl ValueError
                                 else Inr (map (reshape2 (num_classes self) (num_classes self)) hists))))"

subsection \<open>\<open>Measurement.accuracy\<close>\<close>

text \<open>
  Without \<open>ignore_idx\<close>: per batch item the number of agreeing pixels divided by the row
  length \<open>H * W\<close>, then the mean over the batch.

  With \<open>ignore_idx\<close>: \<open>np.where\<close> on the two-dimensional \<open>target\<close> returns a pair of index
  arrays, and indexing with it yields one-dimensional arrays holding the kept pixels of
  the whole batch in row-major order. \<open>np.sum(_, axis=-1)\<close> is then a single count,
  \<open>pred.shape[-1]\<close> the number of kept pixels, and \<open>np.mean\<close> of the single quotient is
  that quotient.

  Operands of different shapes are reported as \<open>ValueError\<close> (broadcasting is not
  modelled). Labels are only compared here, with the predicted labels and with
  \<open>ignore_idx\<close>, so the dtype of \<open>target\<close> plays no part.
\<close>

definition accuracy ::
  "Measurement \<Rightarrow> 'a::linorder list list list list \<Rightarrow> int list list list \<Rightarrow> error + npfloat" where
  "accuracy self pred target =
     (case argmax_axis1 pred of
        Inl e \<Rightarrow> Inl e
      | Inr pred_label \<Rightarrow>
          let pred2 = map concat pred_label;
              target2 = map concat target
          in if map length pred2 \<noteq> map length target2 then Inl ValueError
             else
               (case ignore_idx self of
                  None \<Rightarrow>
                    Inr (np_mean (map2 (\<lambda>p t. np_div (real (length (filter (\<lambda>(pv, tv). int pv = tv) (zip p t))))
                                                   (real (length p)))
                                   pred2 target2))
                | Some ig \<Rightarrow>
                    let kept = filter (\<lambda>(pv, tv). tv \<noteq> ig) (concat (map2 zip pred2 target2))
                    in Inr (np_mean [np_div (real (length (filter (\<lambda>(pv, tv). int pv = tv) kept)))
                                            (real (length kept))])))"

subsection \<open>\<open>Measurement.miou\<close>, \<open>no_bg_miou\<close>, \<open>precision\<close>, \<open>recall\<close>, \<open>f1score\<close>\<close>

definition eps8 :: real where
  "eps8 = 1 / 100000000"

definition eps7 :: real where
  "eps7 = 1 / 10000000"

text \<open>The body of the loop of \<open>miou\<close> for class \<open>i\<close>: the batch mean of the IoU.\<close>

definition batch_mean_iou :: "int list list list \<Rightarrow> nat \<Rightarrow> npfloat" where
  "batch_mean_iou conf_mat i =
     np_mean (map2 (\<lambda>item (sc, sr).
                      np_div (of_int (item ! i ! i))
                             (of_int (sc ! i + sr ! i - item ! i ! i) + eps8))
                conf_mat (zip (sum_axis_m2 conf_mat) (sum_axis_m1 conf_mat)))"

definition miou :: "Measurement \<Rightarrow> int list list list \<Rightarrow> error + (npfloat list \<times> npfloat)" where
  "miou self conf_mat =
     (if \<exists>i \<in> set [0..<num_classes self]. \<not> index_ok conf_mat i then Inl IndexError
      else
        let iou_list = map (batch_mean_iou conf_mat) [0..<num_classes self]
        in Inr (iou_list, np_mean iou_list))"

definition no_bg_miou :: "int list list list \<Rightarrow> error + npfloat" where
  "no_bg_miou conf_mat =
     (if \<not> index_ok conf_mat 2 then Inl IndexError
      else
        let miou_nbg =
              np_mean (map2 (\<lambda>item (sc, sr).
                               np_div (of_int (item ! 1 ! 1 + item ! 2 ! 2))
                                      (of_int (sc ! 1 + sr ! 1 - item ! 1 ! 1
                                               + sc ! 2 + sr ! 2 - item ! 2 ! 2) + eps8))
                         conf_mat (zip (sum_axis_m2 conf_mat) (sum_axis_m1 conf_mat)))
        in Inr (np_mean [miou_nbg]))"

definition precision :: "Measurement \<Rightarrow> int list list list \<Rightarrow> error + npfloat" where
  "precision self conf_mat =
     (if \<exists>i \<in> set [1..<num_classes self]. \<not> index_ok conf_mat i then Inl IndexError
      else
        let precision_per_class =
              map (\<lambda>i. np_mean (map2 (\<lambda>item sc. np_div (of_int (item ! i ! i)) (of_int (sc ! i) + eps7))
                                   conf_mat (sum_axis_m2 conf_mat)))
                  [1..<num_classes self]
        in Inr (np_mean precision_per_class))"

definition recall :: "Measurement \<Rightarrow> int list list list \<Rightarrow> error + npfloat" where
  "recall self conf_mat =
     (if \<exists>i \<in> set [1..<num_classes self]. \<not> index_ok conf_mat i then Inl IndexError
      else
        let recall_per_class =
              map (\<lambda>i. np_mean (map2 (\<lambda>item sr. np_div (of_int (item ! i ! i)) (of_int (sr ! i)))
                                   conf_mat (sum_axis_m1 conf_mat)))
                  [1..<num_classes self]
        in Inr (np_mean recall_per_class))"

text \<open>\<open>f1score\<close> is applied to two float scalars; a non-finite argument gives a non-finite
  result.\<close>

definition f1score :: "npfloat \<Rightarrow> npfloat \<Rightarrow> npfloat" where
  "f1score rec prec =
     (case (rec, prec) of
        (Some r, Some p) \<Rightarrow> np_div (2 * r * p) (r + p + eps8)
      | _ \<Rightarrow> None)"

subsection \<open>\<open>Measurement.measure\<close>\<close>

definition measure_metrics ::
  "Measurement \<Rightarrow> 'a::linorder list list list list \<Rightarrow> int_dtype \<Rightarrow> int list list list
     \<Rightarrow> error + (npfloat \<times> npfloat \<times> npfloat list \<times> npfloat \<times> npfloat \<times> npfloat \<times> npfloat)" where
  "measure_metrics self pred target_dtype target =
     (case make_confusion_matrix self pred target_dtype target of
        Inl e \<Rightarrow> Inl e
      | Inr conf_mat \<Rightarrow>
     (case accuracy self pred target of
        Inl e \<Rightarrow> Inl e
      | Inr acc \<Rightarrow>
     (case miou self conf_mat of
        Inl e \<Rightarrow> Inl e
      | Inr (iou_list, miou_v) \<Rightarrow>
     (case no_bg_miou conf_mat of
        Inl e \<Rightarrow> Inl e
      | Inr cwmiou \<Rightarrow>
     (case precision self conf_mat of
        Inl e \<Rightarrow> Inl e
      | Inr precision_v \<Rightarrow>
     (case recall self conf_mat of
        Inl e \<Rightarrow> Inl e
      | Inr recall_v \<Rightarrow>
          Inr (acc, miou_v, iou_list, precision_v, recall_v, f1score recall_v precision_v, cwmiou)))))))"

section \<open>Vocabulary of the properties\<close>

subsection \<open>Shapes, labels and counts\<close>

text \<open>
  The properties speak about arrays of a given shape, about the pixels \<open>(h, w)\<close> of a
  batch item and about sums over the rows and columns of a confusion matrix. These notions
  are defined here, independently of the functions above.
\<close>

text \<open>\<open>shape3 n r c a\<close>: the nested list \<open>a\<close> is an array of shape \<open>(n, r, c)\<close>.\<close>

definition shape3 :: "nat \<Rightarrow> nat \<Rightarrow> nat \<Rightarrow> 'a list list list \<Rightarrow> bool" where
  "shape3 n r c a =
     (length a = n \<and> (\<forall>item \<in> set a. length item = r \<and> (\<forall>row \<in> set item. length row = c)))"

text \<open>\<open>shape4 n c h w a\<close>: the nested list \<open>a\<close> is an array of shape \<open>(n, c, h, w)\<close>.\<close>

definition shape4 :: "nat \<Rightarrow> nat \<Rightarrow> nat \<Rightarrow> nat \<Rightarrow> 'a list list list list \<Rightarrow> bool" where
  "shape4 n c h w a = (length a = n \<and> (\<forall>item \<in> set a. shape3 c h w item))"

text \<open>Every label lies in \<open>[0, c)\<close>.\<close>

definition labels_in_range :: "nat \<Rightarrow> int list list list \<Rightarrow> bool" where
  "labels_in_range c target =
     (\<forall>item \<in> set target. \<forall>row \<in> set item. \<forall>v \<in> set row. 0 \<le> v \<and> v < int c)"

text \<open>No category code of \<open>c\<close> classes wraps around when the labels have dtype \<open>dt\<close>: the
  number of classes and the largest product \<open>c * (c - 1)\<close> lie in the range of \<open>dt\<close>, the
  largest code \<open>c\<^sup>2 - 1\<close> lies in the range of \<open>int64\<close>, and \<open>dt\<close> is not \<open>uint64\<close>.\<close>

definition codes_fit :: "int_dtype \<Rightarrow> nat \<Rightarrow> bool" where
  "codes_fit dt c =
     (dt \<noteq> UInt64 \<and> int c \<le> dtype_max dt \<and> int c * (int c - 1) \<le> dtype_max dt
      \<and> int c * int c - 1 \<le> dtype_max Int64)"

text \<open>Every entry of a confusion matrix is non-negative.\<close>

definition nonneg_entries :: "int list list list \<Rightarrow> bool" where
  "nonneg_entries a = (\<forall>item \<in> set a. \<forall>row \<in> set item. \<forall>v \<in> set row. 0 \<le> v)"

text \<open>\<open>j\<close> is the first index at which the list \<open>xs\<close> attains its maximum: no element
  is larger than \<open>xs ! j\<close>, and every element before position \<open>j\<close> is strictly smaller.\<close>

definition first_max :: "'a::linorder list \<Rightarrow> nat \<Rightarrow> bool" where
  "first_max xs j =
     (j < length xs \<and> (\<forall>x \<in> set xs. x \<le> xs ! j) \<and> (\<forall>x \<in> set (take j xs). x < xs ! j))"

text \<open>The scores of all classes at pixel \<open>(h, w)\<close> of batch item \<open>n\<close>, in class order.\<close>

definition class_scores :: "'a list list list list \<Rightarrow> nat \<Rightarrow> nat \<Rightarrow> nat \<Rightarrow> 'a list" where
  "class_scores pred n h w = map (\<lambda>ch. ch ! h ! w) (pred ! n)"

text \<open>The prediction is right at pixel \<open>(h, w)\<close> of item \<open>n\<close>: the label there is the first
  index attaining the maximum of the class scores.\<close>

definition hit :: "'a::linorder list list list list \<Rightarrow> int list list list \<Rightarrow> nat \<Rightarrow> nat \<Rightarrow> nat \<Rightarrow> bool" where
  "hit pred target n h w =
     (\<exists>j \<in> set [0..<length (pred ! n)].
        first_max (class_scores pred n h w) j \<and> target ! n ! h ! w = int j)"

text \<open>\<open>sum_col[n, i]\<close> and \<open>sum_row[n, i]\<close> of a confusion matrix with \<open>c\<close> classes: the sum of
  column \<open>i\<close> (pixels predicted as \<open>i\<close>) and of row \<open>i\<close> (pixels labelled \<open>i\<close>) of item \<open>n\<close>.\<close>

definition col_total :: "int list list list \<Rightarrow> nat \<Rightarrow> nat \<Rightarrow> nat \<Rightarrow> int" where
  "col_total conf c n i = (\<Sum>k<c. conf ! n ! k ! i)"

definition row_total :: "int list list list \<Rightarrow> nat \<Rightarrow> nat \<Rightarrow> nat \<Rightarrow> int" where
  "row_total conf c n i = (\<Sum>k<c. conf ! n ! i ! k)"

text \<open>The per-item quotients of the metrics, as real numbers: IoU of class \<open>i\<close>, the union
  IoU of classes 1 and 2, precision and recall of class \<open>i\<close>.\<close>

definition iou :: "int list list list \<Rightarrow> nat \<Rightarrow> nat \<Rightarrow> nat \<Rightarrow> real" where
  "iou conf c n i =
     of_int (conf ! n ! i ! i)
       / (of_int (col_total conf c n i + row_total conf c n i - conf ! n ! i ! i) + 1 / 10 ^ 8)"

definition fg_union_iou :: "int list list list \<Rightarrow> nat \<Rightarrow> real" where
  "fg_union_iou conf n =
     of_int (conf ! n ! 1 ! 1 + conf ! n ! 2 ! 2)
       / (of_int (col_total conf 3 n 1 + row_total conf 3 n 1 - conf ! n ! 1 ! 1
                  + col_total conf 3 n 2 + row_total conf 3 n 2 - conf ! n ! 2 ! 2) + 1 / 10 ^ 8)"

definition class_precision :: "int list list list \<Rightarrow> nat \<Rightarrow> nat \<Rightarrow> nat \<Rightarrow> real" where
  "class_precision conf c n i =
     of_int (conf ! n ! i ! i) / (of_int (col_total conf c n i) + 1 / 10 ^ 7)"

definition class_recall :: "int list list list \<Rightarrow> nat \<Rightarrow> nat \<Rightarrow> nat \<Rightarrow> real" where
  "class_recall conf c n i = of_int (conf ! n ! i ! i) / of_int (row_total conf c n i)"

text \<open>The mean over the batch items of the fraction of right pixels among the pixels of the
  item that are not ignored (non-finite as soon as one item has no such pixel).\<close>

definition per_item_mean ::
  "int \<Rightarrow> 'a::linorder list list list list \<Rightarrow> int list list list \<Rightarrow> nat \<Rightarrow> nat \<Rightarrow> nat \<Rightarrow> npfloat" where
  "per_item_mean ig pred target n h w =
     np_mean (map (\<lambda>k. np_div
                          (real (card {(y, x). y < h \<and> x < w \<and> target ! k ! y ! x \<noteq> ig
                                                \<and> hit pred target k y x}))
                          (real (card {(y, x). y < h \<and> x < w \<and> target ! k ! y ! x \<noteq> ig})))
                [0..<n])"

subsection \<open>Concrete inputs\<close>

text \<open>
  Small inputs at which the theorems are instantiated: the 2 x 2 label grid
  \<open>[[0, 1], [2, 0]]\<close> with three classes and scores whose \<open>argmax\<close> reproduces the
  labels; a single pixel with many classes; confusion matrices; and two-item batches of
  1 x 2 pixels with two classes and the ignore label \<open>2\<close>.
\<close>

definition scenario_target :: "int list list list" where
  "scenario_target = [[[0, 1], [2, 0]]]"

definition scenario_pred :: "int list list list list" where
  "scenario_pred = [[[[5, 0], [0, 5]], [[0, 5], [0, 0]], [[0, 0], [5, 0]]]]"

text \<open>One batch item of one pixel with \<open>c\<close> classes, all scores equal (so that the predicted
  label is 0), and the matrix of shape \<open>(1, c, c)\<close> whose only count is a 1 in cell
  \<open>[i, j]\<close>.\<close>

definition flat_scores :: "nat \<Rightarrow> int list list list list" where
  "flat_scores c = [replicate c [[0]]]"

definition single_count :: "nat \<Rightarrow> nat \<Rightarrow> nat \<Rightarrow> int list list list" where
  "single_count c i j = [(replicate c (replicate c 0))[i := (replicate c 0)[j := 1]]]"

definition diagonal_conf :: "int list list list" where
  "diagonal_conf = [[[2, 0, 0], [0, 1, 0], [0, 0, 1]]]"

definition example_conf :: "int list list list" where
  "example_conf = [[[2, 0, 0], [0, 1, 0], [0, 0, 1]], [[0, 0, 0], [0, 0, 0], [0, 0, 0]]]"

definition background_conf :: "int list list list" where
  "background_conf = [[[2, 0, 0], [1, 0, 0], [1, 0, 0]]]"

definition uneven_target :: "int list list list" where
  "uneven_target = [[[0, 2]], [[0, 1]]]"



definition pred_right :: "int list list list list" where
  "pred_right = [[[[1, 1]], [[0, 0]]], [[[1, 0]], [[0, 1]]]]"

definition pred_mixed :: "int list list list list" where
  "pred_mixed = [[[[1, 1]], [[0, 0]]], [[[1, 1]], [[0, 0]]]]"

subsection \<open>Auxiliary notions of the proofs\<close>

text \<open>
  The label the code predicts at one pixel, and the list of category codes of one batch
  item; both only name intermediate values of the functions above.
\<close>

definition pred_label_at :: "'a::linorder list list list list \<Rightarrow> nat \<Rightarrow> nat \<Rightarrow> nat \<Rightarrow> nat" where
  "pred_label_at pred n h w = argmax_scan 0 (hd (pred ! n) ! h ! w) 1 (map (\<lambda>ch. ch ! h ! w) (tl (pred ! n)))"

definition cat_codes ::
  "nat \<Rightarrow> 'a::linorder list list list list \<Rightarrow> int list list list \<Rightarrow> nat \<Rightarrow> nat \<Rightarrow> nat \<Rightarrow> int list" where
  "cat_codes c pred target h w n =
     map (\<lambda>(y, x). int c * target ! n ! y ! x + int (pred_label_at pred n y x)) (List.product [0..<h] [0..<w])"

section \<open>Auxiliary lemmas\<close>

subsection \<open>\<open>argmax\<close>\<close>

lemma first_max_unique:
  assumes "first_max xs j" "first_max xs k"
  shows "j = k"
proof (rule ccontr)
  assume "j \<noteq> k"
  then consider "j < k" | "k < j" by linarith
  then show False
  proof cases
    case 1
    then have "xs ! j \<in> set (take k xs)"
      using assms by (auto simp: first_max_def in_set_conv_nth)
    then have "xs ! j < xs ! k" using assms(2) by (simp add: first_max_def)
    moreover have "xs ! k \<le> xs ! j" using assms by (simp add: first_max_def)
    ultimately show False by simp
  next
    case 2
    then have "xs ! k \<in> set (take j xs)"
      using assms by (auto simp: first_max_def in_set_conv_nth)
    then have "xs ! k < xs ! j" using assms(1) by (simp add: first_max_def)
    moreover have "xs ! j \<le> xs ! k" using assms by (simp add: first_max_def)
    ultimately show False by simp
  qed
qed

lemma argmax_scan_invariant:
  assumes "best < length pre" "(pre @ xs) ! best = mx"
    and "\<forall>x \<in> set pre. x \<le> mx" "\<forall>x \<in> set (take best pre). x < mx"
  shows "first_max (pre @ xs) (argmax_scan best mx (length pre) xs)"
  using assms
proof (induction xs arbitrary: pre best mx)
  case Nil
  then show ?case by (simp add: first_max_def)
next
  case (Cons x xs)
  show ?case
  proof (cases "mx < x")
    case True
    have "first_max ((pre @ [x]) @ xs) (argmax_scan (length pre) x (length (pre @ [x])) xs)"
    proof (rule Cons.IH)
      show "length pre < length (pre @ [x])" by simp
      show "((pre @ [x]) @ xs) ! length pre = x" by (simp add: nth_append)
      show "\<forall>y \<in> set (pre @ [x]). y \<le> x" using Cons.prems(3) True by auto
      show "\<forall>y \<in> set (take (length pre) (pre @ [x])). y < x" using Cons.prems(3) True by auto
    qed
    then show ?thesis using True by simp
  next
    case False
    have "first_max ((pre @ [x]) @ xs) (argmax_scan best mx (length (pre @ [x])) xs)"
    proof (rule Cons.IH)
      show "best < length (pre @ [x])" using Cons.prems(1) by simp
      show "((pre @ [x]) @ xs) ! best = mx" using Cons.prems(1,2) by (simp add: nth_append)
      show "\<forall>y \<in> set (pre @ [x]). y \<le> mx" using Cons.prems(3) False by auto
      show "\<forall>y \<in> set (take best (pre @ [x])). y < mx" using Cons.prems(1,4) by simp
    qed
    then show ?thesis using False by simp
  qed
qed

lemma argmax_scan_first_max: "first_max (x # xs) (argmax_scan 0 x 1 xs)"
  using argmax_scan_invariant[of 0 "[x]" xs x] by simp

lemma sequence_err_map_Inr:
  "(\<And>x. x \<in> set xs \<Longrightarrow> f x = Inr (g x)) \<Longrightarrow> sequence_err (map f xs) = Inr (map g xs)"
  by (induction xs) simp_all

lemma pred_label_at_first_max:
  assumes "pred ! n \<noteq> []"
  shows "first_max (class_scores pred n h w) (pred_label_at pred n h w)"
proof -
  obtain ch0 chs where "pred ! n = ch0 # chs" using assms by (cases "pred ! n") auto
  then show ?thesis
    using argmax_scan_first_max[of "ch0 ! h ! w" "map (\<lambda>ch. ch ! h ! w) chs"]
    by (simp add: class_scores_def pred_label_at_def)
qed

lemma argmax_axis0_shape:
  assumes "shape3 c h w item" "0 < c"
  shows "argmax_axis0 item =
           Inr (map (\<lambda>y. map (\<lambda>x. argmax_scan 0 (hd item ! y ! x) 1 (map (\<lambda>ch. ch ! y ! x) (tl item))) [0..<w]) [0..<h])"
proof -
  obtain ch0 chs where item: "item = ch0 # chs" using assms by (cases item) (auto simp: shape3_def)
  have "length ch0 = h" "\<forall>row \<in> set ch0. length row = w"
    using assms(1) by (auto simp: shape3_def item)
  then show ?thesis by (simp add: argmax_axis0_def item)
qed

lemma argmax_axis1_shape:
  assumes "shape4 n c h w pred" "0 < c"
  shows "argmax_axis1 pred =
           Inr (map (\<lambda>k. map (\<lambda>y. map (\<lambda>x. pred_label_at pred k y x) [0..<w]) [0..<h]) [0..<n])"
proof -
  have len: "length pred = n" using assms by (simp add: shape4_def)
  have "sequence_err (map argmax_axis0 pred)
        = Inr (map (\<lambda>item. map (\<lambda>y. map (\<lambda>x. argmax_scan 0 (hd item ! y ! x) 1 (map (\<lambda>ch. ch ! y ! x) (tl item))) [0..<w]) [0..<h]) pred)"
  proof (rule sequence_err_map_Inr)
    fix item assume "item \<in> set pred"
    then have "shape3 c h w item" using assms(1) by (simp add: shape4_def)
    then show "argmax_axis0 item =
           Inr (map (\<lambda>y. map (\<lambda>x. argmax_scan 0 (hd item ! y ! x) 1 (map (\<lambda>ch. ch ! y ! x) (tl item))) [0..<w]) [0..<h])"
      using assms(2) by (rule argmax_axis0_shape)
  qed
  also have "map (\<lambda>item. map (\<lambda>y. map (\<lambda>x. argmax_scan 0 (hd item ! y ! x) 1 (map (\<lambda>ch. ch ! y ! x) (tl item))) [0..<w]) [0..<h]) pred
      = map (\<lambda>k. map (\<lambda>y. map (\<lambda>x. pred_label_at pred k y x) [0..<w]) [0..<h]) [0..<n]"
    using len by (intro nth_equalityI) (simp_all add: pred_label_at_def)
  finally show ?thesis by (simp add: argmax_axis1_def)
qed

subsection \<open>Flattening a grid of pixels\<close>

lemma concat_grid:
  "concat (map (\<lambda>y. map (\<lambda>x. f y x) [0..<w]) [0..<h]) = map (\<lambda>(y, x). f y x) (List.product [0..<h] [0..<w])"
  by (induction h) (simp_all add: List.product_concat_map comp_def)

lemma concat_shape:
  assumes "length a = h" "\<forall>row \<in> set a. length row = w"
  shows "concat a = map (\<lambda>(y, x). a ! y ! x) (List.product [0..<h] [0..<w])"
proof -
  have "a = map (\<lambda>y. map (\<lambda>x. a ! y ! x) [0..<w]) [0..<h]"
    using assms by (intro nth_equalityI) (auto simp: map_nth)
  then have "concat a = concat (map (\<lambda>y. map (\<lambda>x. a ! y ! x) [0..<w]) [0..<h])" by simp
  then show ?thesis by (simp only: concat_grid)
qed

lemma length_filter_grid:
  "length (filter P (map (\<lambda>(y, x). f y x) (List.product [0..<h] [0..<w])))
     = card {(y, x). y < h \<and> x < w \<and> P (f y x)}"
proof -
  have d: "distinct (List.product [0..<h] [0..<w])"
    by (simp add: distinct_product)
  have "length (filter P (map (\<lambda>(y, x). f y x) (List.product [0..<h] [0..<w])))
        = length (filter (\<lambda>(y, x). P (f y x)) (List.product [0..<h] [0..<w]))"
    by (simp add: filter_map comp_def split_def)
  also have "\<dots> = card ({p. (\<lambda>(y, x). P (f y x)) p} \<inter> set (List.product [0..<h] [0..<w]))"
    using d by (rule distinct_length_filter)
  also have "{p. (\<lambda>(y, x). P (f y x)) p} \<inter> set (List.product [0..<h] [0..<w])
             = {(y, x). y < h \<and> x < w \<and> P (f y x)}"
    by auto
  finally show ?thesis .
qed

subsection \<open>\<open>bincount\<close> and \<open>reshape\<close>\<close>

lemma fold_max_minlength:
  "\<forall>v \<in> set x. nat v < m \<Longrightarrow> fold (\<lambda>v b. max b (Suc (nat v))) x m = m"
proof (induction x)
  case Nil
  then show ?case by simp
next
  case (Cons v x)
  then have "max m (Suc (nat v)) = m" by auto
  then show ?case using Cons by simp
qed

lemma fold_increment:
  "\<forall>v \<in> set x. 0 \<le> v \<and> nat v < length acc \<Longrightarrow>
     fold (\<lambda>v acc. acc[nat v := acc ! nat v + 1]) x acc
       = map (\<lambda>k. acc ! k + int (count_list x (int k))) [0..<length acc]"
proof (induction x arbitrary: acc)
  case Nil
  then show ?case by (simp add: map_nth)
next
  case (Cons v x)
  let ?acc = "acc[nat v := acc ! nat v + 1]"
  have "\<forall>u \<in> set x. 0 \<le> u \<and> nat u < length ?acc" using Cons.prems by simp
  then have "fold (\<lambda>v acc. acc[nat v := acc ! nat v + 1]) x ?acc
       = map (\<lambda>k. ?acc ! k + int (count_list x (int k))) [0..<length ?acc]"
    by (rule Cons.IH)
  also have "\<dots> = map (\<lambda>k. acc ! k + int (count_list (v # x) (int k))) [0..<length acc]"
  proof (rule nth_equalityI)
    show "length (map (\<lambda>k. ?acc ! k + int (count_list x (int k))) [0..<length ?acc])
          = length (map (\<lambda>k. acc ! k + int (count_list (v # x) (int k))) [0..<length acc])"
      by simp
  next
    fix k assume "k < length (map (\<lambda>k. ?acc ! k + int (count_list x (int k))) [0..<length ?acc])"
    then have k: "k < length acc" by simp
    have v: "0 \<le> v" using Cons.prems by simp
    have "(v = int k) = (k = nat v)" using v by auto
    then show "map (\<lambda>k. ?acc ! k + int (count_list x (int k))) [0..<length ?acc] ! k
          = map (\<lambda>k. acc ! k + int (count_list (v # x) (int k))) [0..<length acc] ! k"
      using k by (simp add: nth_list_update)
  qed
  finally show ?case by simp
qed

lemma bincount_in_range:
  assumes "\<forall>v \<in> set x. 0 \<le> v \<and> v < int m"
  shows "bincount x m = Inr (map (\<lambda>k. int (count_list x (int k))) [0..<m])"
proof -
  have r: "\<forall>v \<in> set x. nat v < m" using assms by auto
  have "fold (\<lambda>v acc. acc[nat v := acc ! nat v + 1]) x (replicate m 0)
        = map (\<lambda>k. replicate m 0 ! k + int (count_list x (int k))) [0..<length (replicate m (0::int))]"
    by (rule fold_increment) (use assms r in auto)
  also have "\<dots> = map (\<lambda>k. int (count_list x (int k))) [0..<m]"
    by simp
  finally show ?thesis
    using assms by (auto simp: bincount_def fold_max_minlength[OF r])
qed

lemma count_list_map_filter:
  "count_list (map f xs) v = length (filter (\<lambda>x. f x = v) xs)"
  by (induction xs) simp_all

lemma reshape2_nth:
  assumes "length xs = r * c" "i < r" "j < c"
  shows "reshape2 r c xs ! i ! j = xs ! (i * c + j)"
proof -
  have "i * c + c \<le> r * c"
  proof -
    have "Suc i * c \<le> r * c" using assms(2) by (intro mult_le_mono1) simp
    then show ?thesis by (simp add: add.commute)
  qed
  then have "i * c + j < length xs" using assms by simp
  then show ?thesis using assms by (simp add: reshape2_def)
qed

lemma reshape2_shape:
  assumes "length xs = r * c"
  shows "length (reshape2 r c xs) = r" "\<forall>row \<in> set (reshape2 r c xs). length row = c"
proof -
  show "length (reshape2 r c xs) = r" by (simp add: reshape2_def)
  show "\<forall>row \<in> set (reshape2 r c xs). length row = c"
  proof
    fix row assume "row \<in> set (reshape2 r c xs)"
    then obtain i where i: "i < r" "row = take c (drop (i * c) xs)"
      by (auto simp: reshape2_def)
    have "Suc i * c \<le> r * c" using i(1) by (intro mult_le_mono1) simp
    then have "i * c + c \<le> length xs" using assms by (simp add: add.commute)
    then show "length row = c" using i by simp
  qed
qed

lemma concat_reshape2:
  "length xs = r * c \<Longrightarrow> concat (reshape2 r c xs) = xs"
proof (induction r arbitrary: xs)
  case 0
  then show ?case by (simp add: reshape2_def)
next
  case (Suc r)
  have "[0..<Suc r] = 0 # map Suc [0..<r]"
    by (simp add: upt_conv_Cons map_Suc_upt del: upt_Suc)
  then have "reshape2 (Suc r) c xs = take c xs # reshape2 r c (drop c xs)"
    by (simp add: reshape2_def comp_def add.commute del: upt_Suc)
  moreover have "concat (reshape2 r c (drop c xs)) = drop c xs"
    using Suc.prems by (intro Suc.IH) simp
  ultimately show ?case by simp
qed

lemma sum_list_count_range:
  assumes "\<forall>v \<in> set x. 0 \<le> v \<and> v < int m"
  shows "(\<Sum>k\<leftarrow>[0..<m]. int (count_list x (int k))) = int (length x)"
  using assms
proof (induction x)
  case Nil
  then show ?case by simp
next
  case (Cons v x)
  have v: "0 \<le> v" "nat v < m" using Cons.prems by auto
  have "(\<Sum>k\<leftarrow>[0..<m]. int (count_list (v # x) (int k)))
        = (\<Sum>k\<leftarrow>[0..<m]. int (count_list x (int k)) + (if k = nat v then 1 else 0))"
    using v(1) by (intro arg_cong[where f=sum_list] map_cong) auto
  also have "\<dots> = (\<Sum>k\<leftarrow>[0..<m]. int (count_list x (int k))) + (\<Sum>k\<leftarrow>[0..<m]. if k = nat v then 1 else 0)"
    by (simp add: sum_list_addf)
  also have "(\<Sum>k\<leftarrow>[0..<m]. if k = nat v then 1 else 0) = (1::int)"
    using v(2) by (simp add: interv_sum_list_conv_sum_set_nat)
  finally show ?case using Cons by simp
qed

subsection \<open>Labels and category codes\<close>

lemma shape3_item:
  assumes "shape3 n h w a" "k < n"
  shows "length (a ! k) = h" "\<forall>row \<in> set (a ! k). length row = w"
  using assms by (auto simp: shape3_def dest!: nth_mem)

lemma shape4_item:
  assumes "shape4 n c h w a" "k < n"
  shows "shape3 c h w (a ! k)"
  using assms by (auto simp: shape4_def)

lemma pred_label_at_less:
  assumes "shape4 n c h w pred" "k < n" "0 < c"
  shows "pred_label_at pred k y x < c"
proof -
  have len: "length (pred ! k) = c"
    using shape4_item[OF assms(1,2)] by (simp add: shape3_def)
  then have "pred ! k \<noteq> []" using assms(3) by auto
  then have "first_max (class_scores pred k y x) (pred_label_at pred k y x)" by (rule pred_label_at_first_max)
  then show ?thesis using len by (simp add: first_max_def class_scores_def)
qed

lemma pred_label_at_iff_first_max:
  assumes "shape4 n c h w pred" "k < n" "0 < c"
  shows "first_max (class_scores pred k y x) j \<longleftrightarrow> pred_label_at pred k y x = j"
proof -
  have "length (pred ! k) = c"
    using shape4_item[OF assms(1,2)] by (simp add: shape3_def)
  then have "pred ! k \<noteq> []" using assms(3) by auto
  then have "first_max (class_scores pred k y x) (pred_label_at pred k y x)" by (rule pred_label_at_first_max)
  then show ?thesis using first_max_unique by blast
qed

lemma target_in_range:
  assumes "labels_in_range c target" "shape3 n h w target" "k < n" "y < h" "x < w"
  shows "0 \<le> target ! k ! y ! x" "target ! k ! y ! x < int c"
proof -
  have 1: "target ! k \<in> set target" using assms by (simp add: shape3_def)
  have 2: "target ! k ! y \<in> set (target ! k)" using assms shape3_item(1)[OF assms(2,3)] by simp
  have 3: "target ! k ! y ! x \<in> set (target ! k ! y)"
    using assms shape3_item(2)[OF assms(2,3)] 2 by simp
  show "0 \<le> target ! k ! y ! x" "target ! k ! y ! x < int c"
    using assms(1) 1 2 3 unfolding labels_in_range_def by blast+
qed

lemma code_bounds:
  fixes t :: int
  assumes "0 \<le> t" "t < int c" "a < c"
  shows "0 \<le> int c * t + int a" "int c * t + int a < int (c\<^sup>2)"
proof -
  show "0 \<le> int c * t + int a" using assms by simp
  have "t + 1 \<le> int c" using assms by simp
  then have "int c * (t + 1) \<le> int c * int c" by (intro mult_left_mono) simp_all
  moreover have "int c * t + int a < int c * (t + 1)" using assms by (simp add: distrib_left)
  ultimately show "int c * t + int a < int (c\<^sup>2)" by (simp add: power2_eq_square)
qed

lemma code_decode:
  fixes t :: int
  assumes "a < c" "j < c"
  shows "int c * t + int a = int (i * c + j) \<longleftrightarrow> t = int i \<and> a = j"
proof
  assume eq: "int c * t + int a = int (i * c + j)"
  have c: "int c \<noteq> 0" using assms by simp
  have "(int c * t + int a) div int c = t"
    using assms c by simp
  moreover have "int (i * c + j) div int c = int i"
  proof -
    have "int (i * c + j) = int c * int i + int j" by simp
    then show ?thesis using assms c by (simp del: of_nat_add of_nat_mult)
  qed
  ultimately have t: "t = int i" using eq by simp
  then have "int a = int j" using eq by simp
  then show "t = int i \<and> a = j" using t by simp
next
  assume "t = int i \<and> a = j"
  then show "int c * t + int a = int (i * c + j)" by simp
qed

lemma cat_codes_in_range:
  assumes "shape4 n c h w pred" "shape3 n h w target" "labels_in_range c target" "k < n" "0 < c"
  shows "\<forall>v \<in> set (cat_codes c pred target h w k). 0 \<le> v \<and> v < int (c\<^sup>2)"
proof
  fix v assume "v \<in> set (cat_codes c pred target h w k)"
  then obtain y x where yx: "y < h" "x < w"
      and v: "v = int c * target ! k ! y ! x + int (pred_label_at pred k y x)"
    by (auto simp: cat_codes_def)
  show "0 \<le> v \<and> v < int (c\<^sup>2)"
    unfolding v
    using code_bounds[OF target_in_range[OF assms(3,2,4) yx] pred_label_at_less[OF assms(1,4,5)]]
    by simp
qed

subsection \<open>Codes that do not wrap around\<close>

lemma wrap_id:
  assumes "dtype_min dt \<le> x" "x \<le> dtype_max dt"
  shows "wrap dt x = x"
proof -
  have "(2::int) ^ dtype_bits dt = dtype_max dt - dtype_min dt + 1"
    by (cases dt) (simp_all add: dtype_max_def dtype_min_def)
  then have "0 \<le> x - dtype_min dt" "x - dtype_min dt < 2 ^ dtype_bits dt"
    using assms by simp_all
  then show ?thesis by (simp add: wrap_def)
qed

lemma dtype_min_nonpos: "dtype_min dt \<le> 0"
  by (simp add: dtype_min_def)

lemma scaled_no_wrap:
  fixes t :: int
  assumes "codes_fit dt c" "0 \<le> t" "t < int c"
  shows "wrap dt (int c * t) = int c * t"
proof (rule wrap_id)
  have "0 \<le> int c * t" using assms(2) by simp
  then show "dtype_min dt \<le> int c * t" using dtype_min_nonpos[of dt] by linarith
  have "t \<le> int c - 1" using assms(3) by simp
  then have "int c * t \<le> int c * (int c - 1)" by (intro mult_left_mono) simp_all
  then show "int c * t \<le> dtype_max dt" using assms(1) unfolding codes_fit_def by linarith
qed

lemma code_no_wrap:
  fixes t :: int
  assumes "codes_fit dt c" "0 \<le> t" "t < int c" "a < c"
  shows "wrap Int64 (int c * t + int a) = int c * t + int a"
proof (rule wrap_id)
  note b = code_bounds[OF assms(2,3,4)]
  show "dtype_min Int64 \<le> int c * t + int a"
    using b(1) dtype_min_nonpos[of Int64] by linarith
  have "int c * t + int a \<le> int c * int c - 1" using b(2) by (simp add: power2_eq_square)
  then show "int c * t + int a \<le> dtype_max Int64"
    using assms(1) unfolding codes_fit_def by linarith
qed

subsection \<open>The confusion matrix when no code wraps around\<close>

text \<open>
  When no code wraps around (\<open>codes_fit\<close>), \<open>_make_confusion_matrix\<close> returns the matrix
  of the counts: entry \<open>[n, i, j]\<close> is the number of pixels of item \<open>n\<close> with label \<open>i\<close> at
  which \<open>j\<close> is the first index attaining the maximum of the class scores, and the entries
  of every item add up to \<open>H * W\<close>. With labels of dtype \<open>uint8\<close> this covers up to 16
  classes, with \<open>int8\<close> up to 11.
\<close>

lemma make_confusion_matrix_closed_form:
  assumes "shape4 n c h w pred" "shape3 n h w target" "labels_in_range c target"
    and "num_classes self = c" "0 < n" "0 < c" "codes_fit dt c"
  shows "make_confusion_matrix self pred dt target =
           Inr (map (\<lambda>k. reshape2 c c (map (\<lambda>b. int (count_list (cat_codes c pred target h w k) (int b)))
                                          [0..<c\<^sup>2]))
                  [0..<n])"
proof -
  let ?PL = "map (\<lambda>k. map (\<lambda>y. map (\<lambda>x. pred_label_at pred k y x) [0..<w]) [0..<h]) [0..<n]"
  let ?SC = "map (\<lambda>k. map (\<lambda>(y, x). int c * target ! k ! y ! x) (List.product [0..<h] [0..<w])) [0..<n]"
  have lp: "length pred = n" using assms(1) by (simp add: shape4_def)
  have lt: "length target = n" using assms(2) by (simp add: shape3_def)
  have am1: "argmax_axis1 pred = Inr ?PL" using assms(1,6) by (rule argmax_axis1_shape)
  have p1: "map concat ?PL = map (\<lambda>k. map (\<lambda>(y, x). pred_label_at pred k y x) (List.product [0..<h] [0..<w])) [0..<n]"
    by (simp add: concat_grid comp_def)
  have t1: "map concat target = map (\<lambda>k. map (\<lambda>(y, x). target ! k ! y ! x) (List.product [0..<h] [0..<w])) [0..<n]"
  proof (rule nth_equalityI)
    show "length (map concat target) = length (map (\<lambda>k. map (\<lambda>(y, x). target ! k ! y ! x) (List.product [0..<h] [0..<w])) [0..<n])"
      using lt by simp
  next
    fix k assume "k < length (map concat target)"
    then have k: "k < n" using lt by simp
    show "map concat target ! k = map (\<lambda>k. map (\<lambda>(y, x). target ! k ! y ! x) (List.product [0..<h] [0..<w])) [0..<n] ! k"
      using k lt concat_shape[OF shape3_item[OF assms(2) k]] by simp
  qed
  have lens: "map length (map concat ?PL) = map length (map concat target)"
    unfolding p1 t1 by simp
  have fits: "(int c < dtype_min dt \<or> dtype_max dt < int c) = False"
    using assms(7) dtype_min_nonpos[of dt] by (simp add: codes_fit_def)
  have nu: "(dt = UInt64) = False" using assms(7) by (simp add: codes_fit_def)
  have scaled: "map (map (\<lambda>tv. wrap dt (int c * tv))) (map concat target) = ?SC"
    unfolding t1 map_map
  proof (rule map_cong[OF refl])
    fix k assume "k \<in> set [0..<n]"
    then have k: "k < n" by simp
    show "(map (\<lambda>tv. wrap dt (int c * tv)) \<circ>
            (\<lambda>k. map (\<lambda>(y, x). target ! k ! y ! x) (List.product [0..<h] [0..<w]))) k
          = map (\<lambda>(y, x). int c * target ! k ! y ! x) (List.product [0..<h] [0..<w])"
      unfolding comp_def map_map
    proof (rule map_cong[OF refl])
      fix yx assume "yx \<in> set (List.product [0..<h] [0..<w])"
      then have yx: "fst yx < h" "snd yx < w" by auto
      show "wrap dt (int c * (case yx of (y, x) \<Rightarrow> target ! k ! y ! x))
            = (case yx of (y, x) \<Rightarrow> int c * target ! k ! y ! x)"
        using scaled_no_wrap[OF assms(7) target_in_range[OF assms(3,2) k yx]]
        by (simp add: split_def)
    qed
  qed
  have cats: "map2 (\<lambda>s p. map2 (\<lambda>sv pv. wrap Int64 (sv + int pv)) s p) ?SC (map concat ?PL)
              = map (cat_codes c pred target h w) [0..<n]"
    unfolding p1
  proof (rule nth_equalityI)
    show "length (map2 (\<lambda>s p. map2 (\<lambda>sv pv. wrap Int64 (sv + int pv)) s p) ?SC
                    (map (\<lambda>k. map (\<lambda>(y, x). pred_label_at pred k y x) (List.product [0..<h] [0..<w])) [0..<n]))
          = length (map (cat_codes c pred target h w) [0..<n])"
      by simp
  next
    fix k
    assume "k < length (map2 (\<lambda>s p. map2 (\<lambda>sv pv. wrap Int64 (sv + int pv)) s p) ?SC
                    (map (\<lambda>k. map (\<lambda>(y, x). pred_label_at pred k y x) (List.product [0..<h] [0..<w])) [0..<n]))"
    then have k: "k < n" by simp
    have "map2 (\<lambda>sv pv. wrap Int64 (sv + int pv))
            (map (\<lambda>(y, x). int c * target ! k ! y ! x) (List.product [0..<h] [0..<w]))
            (map (\<lambda>(y, x). pred_label_at pred k y x) (List.product [0..<h] [0..<w]))
          = map (\<lambda>(y, x). wrap Int64 (int c * target ! k ! y ! x + int (pred_label_at pred k y x)))
              (List.product [0..<h] [0..<w])"
      by (simp add: zip_map_map zip_same_conv_map split_def)
    also have "\<dots> = cat_codes c pred target h w k"
      unfolding cat_codes_def
    proof (rule map_cong[OF refl])
      fix yx assume "yx \<in> set (List.product [0..<h] [0..<w])"
      then have yx: "fst yx < h" "snd yx < w" by auto
      show "(case yx of (y, x) \<Rightarrow> wrap Int64 (int c * target ! k ! y ! x + int (pred_label_at pred k y x)))
            = (case yx of (y, x) \<Rightarrow> int c * target ! k ! y ! x + int (pred_label_at pred k y x))"
        using code_no_wrap[OF assms(7) target_in_range[OF assms(3,2) k yx] pred_label_at_less[OF assms(1) k assms(6)]]
        by (simp add: split_def)
    qed
    finally show "map2 (\<lambda>s p. map2 (\<lambda>sv pv. wrap Int64 (sv + int pv)) s p) ?SC
                    (map (\<lambda>k. map (\<lambda>(y, x). pred_label_at pred k y x) (List.product [0..<h] [0..<w])) [0..<n]) ! k
                  = map (cat_codes c pred target h w) [0..<n] ! k"
      using k by simp
  qed
  have hist: "sequence_err (map (\<lambda>x. bincount x (c\<^sup>2)) (map (cat_codes c pred target h w) [0..<n]))
              = Inr (map (\<lambda>x. map (\<lambda>b. int (count_list x (int b))) [0..<c\<^sup>2])
                       (map (cat_codes c pred target h w) [0..<n]))"
  proof (rule sequence_err_map_Inr)
    fix x assume "x \<in> set (map (cat_codes c pred target h w) [0..<n])"
    then obtain k where "k < n" "x = cat_codes c pred target h w k" by auto
    then show "bincount x (c\<^sup>2) = Inr (map (\<lambda>b. int (count_list x (int b))) [0..<c\<^sup>2])"
      using cat_codes_in_range[OF assms(1,2,3) _ assms(6)] by (intro bincount_in_range) simp
  qed
  have ok: "(\<exists>hh \<in> set (map (\<lambda>x. map (\<lambda>b. int (count_list x (int b))) [0..<c\<^sup>2])
                       (map (cat_codes c pred target h w) [0..<n])). length hh \<noteq> c\<^sup>2) = False"
    by auto
  have n0: "(n = 0) = False" using assms(5) by simp
  have fin: "map (reshape2 c c) (map (\<lambda>x. map (\<lambda>b. int (count_list x (int b))) [0..<c\<^sup>2])
                       (map (cat_codes c pred target h w) [0..<n]))
             = map (\<lambda>k. reshape2 c c (map (\<lambda>b. int (count_list (cat_codes c pred target h w k) (int b)))
                                          [0..<c\<^sup>2]))
                  [0..<n]"
    by (simp add: comp_def del: upt_Suc)
  show ?thesis
    by (simp only: make_confusion_matrix_def lp lt am1 Let_def sum.case lens scaled cats hist assms(4)
          fits nu ok n0 fin simp_thms if_False)
qed

lemma cell_count:
  assumes "shape4 n c h w pred" "shape3 n h w target" "k < n" "0 < c" "i < c" "j < c"
  shows "count_list (cat_codes c pred target h w k) (int (i * c + j))
         = card {(y, x). y < h \<and> x < w \<and> target ! k ! y ! x = int i
                         \<and> first_max (class_scores pred k y x) j}"
proof -
  have "count_list (cat_codes c pred target h w k) (int (i * c + j))
        = length (filter (\<lambda>v. v = int (i * c + j))
                    (map (\<lambda>(y, x). int c * target ! k ! y ! x + int (pred_label_at pred k y x))
                       (List.product [0..<h] [0..<w])))"
    by (simp add: cat_codes_def count_list_map_filter filter_map comp_def)
  also have "\<dots> = card {(y, x). y < h \<and> x < w
                          \<and> int c * target ! k ! y ! x + int (pred_label_at pred k y x) = int (i * c + j)}"
    by (rule length_filter_grid)
  also have "{(y, x). y < h \<and> x < w
                \<and> int c * target ! k ! y ! x + int (pred_label_at pred k y x) = int (i * c + j)}
             = {(y, x). y < h \<and> x < w \<and> target ! k ! y ! x = int i
                         \<and> first_max (class_scores pred k y x) j}"
    using code_decode[OF pred_label_at_less[OF assms(1,3,4)] assms(6)]
          pred_label_at_iff_first_max[OF assms(1,3,4)]
    by auto
  finally show ?thesis .
qed

lemma confusion_matrix_counts_no_wrap:
  assumes "shape4 N C H W pred" and "shape3 N H W target" and "labels_in_range C target"
    and "num_classes self = C" and "0 < N" and "0 < C" and "codes_fit dt C"
  shows "\<exists>conf. make_confusion_matrix self pred dt target = Inr conf \<and> shape3 N C C conf \<and>
           (\<forall>n<N. \<forall>i<C. \<forall>j<C.
              conf ! n ! i ! j
                = int (card {(h, w). h < H \<and> w < W \<and> target ! n ! h ! w = int i
                                     \<and> first_max (class_scores pred n h w) j}))"
proof -
  let ?hist = "\<lambda>k. map (\<lambda>b. int (count_list (cat_codes C pred target H W k) (int b))) [0..<C\<^sup>2]"
  let ?conf = "map (\<lambda>k. reshape2 C C (?hist k)) [0..<N]"
  have len: "\<And>k. length (?hist k) = C * C" by (simp add: power2_eq_square)
  have 1: "make_confusion_matrix self pred dt target = Inr ?conf"
    using assms by (rule make_confusion_matrix_closed_form)
  have 2: "shape3 N C C ?conf"
    unfolding shape3_def using reshape2_shape[OF len] by auto
  have 3: "?conf ! n ! i ! j
            = int (card {(h, w). h < H \<and> w < W \<and> target ! n ! h ! w = int i
                                 \<and> first_max (class_scores pred n h w) j})"
    if "n < N" "i < C" "j < C" for n i j
  proof -
    have b: "i * C + j < C\<^sup>2"
    proof -
      have "Suc i * C \<le> C * C" using that(2) by (intro mult_le_mono1) simp
      then show ?thesis using that(3) by (simp add: power2_eq_square)
    qed
    have "?conf ! n ! i ! j = ?hist n ! (i * C + j)"
      using that reshape2_nth[OF len that(2,3)] by simp
    also have "\<dots> = int (count_list (cat_codes C pred target H W n) (int (i * C + j)))"
      using b by simp
    finally show ?thesis
      using cell_count[OF assms(1,2) that(1) assms(6) that(2,3)] by simp
  qed
  show ?thesis using 1 2 3 by blast
qed

lemma sum_list_concat_int:
  "sum_list (concat xss) = sum_list (map sum_list (xss :: int list list))"
  by (induction xss) simp_all

lemma sum_grid:
  assumes "length a = r" "\<forall>row \<in> set a. length row = c"
  shows "(\<Sum>i<r. \<Sum>j<c. a ! i ! j) = sum_list (concat a :: int list)"
proof -
  have "sum_list (concat a) = sum_list (map sum_list a)" by (rule sum_list_concat_int)
  also have "\<dots> = (\<Sum>i = 0..<r. sum_list (a ! i))"
    using assms(1) by (simp add: sum_list_sum_nth)
  also have "\<dots> = (\<Sum>i = 0..<r. \<Sum>j = 0..<c. a ! i ! j)"
    using assms by (intro sum.cong refl) (simp add: sum_list_sum_nth)
  finally show ?thesis by (simp add: atLeast0LessThan)
qed

lemma confusion_matrix_total_no_wrap:
  assumes "shape4 N C H W pred" and "shape3 N H W target" and "labels_in_range C target"
    and "0 < N" and "0 < C" and "codes_fit dt C"
  shows "\<exists>conf. make_confusion_matrix \<lparr>num_classes = C, ignore_idx = ig\<rparr> pred dt target = Inr conf \<and>
           (\<forall>n<N. (\<Sum>i<C. \<Sum>j<C. conf ! n ! i ! j) = int (H * W))"
proof -
  let ?hist = "\<lambda>k. map (\<lambda>b. int (count_list (cat_codes C pred target H W k) (int b))) [0..<C\<^sup>2]"
  let ?conf = "map (\<lambda>k. reshape2 C C (?hist k)) [0..<N]"
  have len: "\<And>k. length (?hist k) = C * C" by (simp add: power2_eq_square)
  have 1: "make_confusion_matrix \<lparr>num_classes = C, ignore_idx = ig\<rparr> pred dt target = Inr ?conf"
    using assms by (intro make_confusion_matrix_closed_form) simp_all
  have 2: "(\<Sum>i<C. \<Sum>j<C. ?conf ! n ! i ! j) = int (H * W)" if "n < N" for n
  proof -
    have "(\<Sum>i<C. \<Sum>j<C. ?conf ! n ! i ! j) = (\<Sum>i<C. \<Sum>j<C. reshape2 C C (?hist n) ! i ! j)"
      using that by simp
    also have "\<dots> = sum_list (concat (reshape2 C C (?hist n)))"
      using reshape2_shape[OF len] by (rule sum_grid)
    also have "\<dots> = sum_list (?hist n)"
      using concat_reshape2[OF len] by simp
    also have "\<dots> = int (length (cat_codes C pred target H W n))"
      using cat_codes_in_range[OF assms(1,2,3) that assms(5)] by (rule sum_list_count_range)
    also have "\<dots> = int (H * W)" by (simp add: cat_codes_def)
    finally show ?thesis .
  qed
  show ?thesis using 1 2 by blast
qed

lemma codes_fit_examples:
  "codes_fit UInt8 3 \<and> codes_fit UInt8 16 \<and> \<not> codes_fit UInt8 17 \<and>
   codes_fit Int8 11 \<and> \<not> codes_fit Int8 12 \<and> codes_fit Int64 17 \<and> \<not> codes_fit UInt64 3"
  by (simp add: codes_fit_def dtype_max_def)

lemma confusion_matrix_uint8_example:
  "make_confusion_matrix \<lparr>num_classes = 3, ignore_idx = None\<rparr> scenario_pred UInt8 scenario_target
     = Inr [[[2, 0, 0], [0, 1, 0], [0, 0, 1]]]"
  by code_simp

subsection \<open>Means, row sums and column sums\<close>

lemma np_mean_Some:
  "xs \<noteq> [] \<Longrightarrow> np_mean (map Some xs) = Some (sum_list xs / real (length xs))"
  by (auto simp: np_mean_def comp_def)

lemma np_mean_single: "np_mean [x] = x"
  by (cases x) (simp_all add: np_mean_def)

lemma int_plus_eps8_nz: "of_int z + eps8 \<noteq> (0::real)"
proof
  assume "of_int z + eps8 = (0::real)"
  then have "(of_int z :: real) * 100000000 + 1 = 0"
    unfolding eps8_def by (simp add: field_simps)
  then have "(of_int (z * 100000000 + 1) :: real) = of_int 0"
    by simp
  then have "z * 100000000 + 1 = 0"
    by (simp only: of_int_eq_iff)
  then have "(z * 100000000 + 1) mod 100000000 = 0 mod 100000000"
    by simp
  then show False by simp
qed

lemma int_plus_eps7_nz: "of_int z + eps7 \<noteq> (0::real)"
proof
  assume "of_int z + eps7 = (0::real)"
  then have "(of_int z :: real) * 10000000 + 1 = 0"
    unfolding eps7_def by (simp add: field_simps)
  then have "(of_int (z * 10000000 + 1) :: real) = of_int 0"
    by simp
  then have "z * 10000000 + 1 = 0"
    by (simp only: of_int_eq_iff)
  then have "(z * 10000000 + 1) mod 10000000 = 0 mod 10000000"
    by simp
  then show False by simp
qed

lemma shape3_nth:
  "shape3 n r c a \<Longrightarrow> k < n \<Longrightarrow> length (a ! k) = r"
  "shape3 n r c a \<Longrightarrow> k < n \<Longrightarrow> i < r \<Longrightarrow> length (a ! k ! i) = c"
  by (auto simp: shape3_def dest!: nth_mem)

lemma sum_axis_m1_nth:
  assumes "shape3 n c c conf" "k < n" "i < c"
  shows "sum_axis_m1 conf ! k ! i = row_total conf c k i"
proof -
  have "sum_axis_m1 conf ! k ! i = sum_list (conf ! k ! i)"
    using assms by (simp add: sum_axis_m1_def shape3_def)
  also have "\<dots> = (\<Sum>j = 0..<c. conf ! k ! i ! j)"
    using assms shape3_nth(2)[OF assms] by (simp add: sum_list_sum_nth)
  finally show ?thesis by (simp add: row_total_def lessThan_atLeast0)
qed

lemma ncols_shape:
  assumes "shape3 n c c conf" "k < n"
  shows "ncols (conf ! k) = c"
proof (cases "conf ! k")
  case Nil
  then show ?thesis using shape3_nth(1)[OF assms] by (simp add: ncols_def)
next
  case (Cons r rs)
  then have "r \<in> set (conf ! k)" by simp
  moreover have "conf ! k \<in> set conf" using assms by (simp add: shape3_def)
  ultimately have "length r = c" using assms(1) by (auto simp: shape3_def)
  then show ?thesis using Cons by (simp add: ncols_def)
qed

lemma sum_axis_m2_nth:
  assumes "shape3 n c c conf" "k < n" "i < c"
  shows "sum_axis_m2 conf ! k ! i = col_total conf c k i"
proof -
  have "sum_axis_m2 conf ! k ! i = sum_list (map (\<lambda>row. row ! i) (conf ! k))"
    using assms ncols_shape[OF assms(1,2)] by (simp add: sum_axis_m2_def shape3_def)
  also have "\<dots> = (\<Sum>j = 0..<c. conf ! k ! j ! i)"
    using shape3_nth(1)[OF assms(1,2)] by (simp add: sum_list_sum_nth)
  finally show ?thesis by (simp add: col_total_def lessThan_atLeast0)
qed

lemma index_ok_shape: "shape3 n c c conf \<Longrightarrow> i < c \<Longrightarrow> index_ok conf i"
  by (auto simp: shape3_def index_ok_def)

lemma map2_zip_nth_conv:
  assumes "length xs = n" "length ys = n" "length zs = n"
  shows "map2 (\<lambda>x (y, z). f x y z) xs (zip ys zs) = map (\<lambda>k. f (xs ! k) (ys ! k) (zs ! k)) [0..<n]"
  using assms by (intro nth_equalityI) auto

lemma map2_nth_conv:
  assumes "length xs = n" "length ys = n"
  shows "map2 f xs ys = map (\<lambda>k. f (xs ! k) (ys ! k)) [0..<n]"
  using assms by (intro nth_equalityI) auto

lemma batch_mean_iou_eq:
  assumes "shape3 n c c conf" "0 < n" "i < c"
  shows "batch_mean_iou conf i = Some ((\<Sum>k<n. iou conf c k i) / real n)"
proof -
  have len: "length conf = n" "length (sum_axis_m2 conf) = n" "length (sum_axis_m1 conf) = n"
    using assms(1) by (simp_all add: shape3_def sum_axis_m2_def sum_axis_m1_def)
  have "map2 (\<lambda>item (sc, sr).
                      np_div (of_int (item ! i ! i))
                             (of_int (sc ! i + sr ! i - item ! i ! i) + eps8))
                conf (zip (sum_axis_m2 conf) (sum_axis_m1 conf))
        = map (\<lambda>k. np_div (of_int (conf ! k ! i ! i))
                 (of_int (sum_axis_m2 conf ! k ! i + sum_axis_m1 conf ! k ! i - conf ! k ! i ! i) + eps8)) [0..<n]"
    by (rule map2_zip_nth_conv[OF len])
  also have "\<dots> = map (\<lambda>k. Some (iou conf c k i)) [0..<n]"
  proof (rule map_cong[OF refl])
    fix k assume "k \<in> set [0..<n]"
    then have k: "k < n" by simp
    show "np_div (of_int (conf ! k ! i ! i))
                 (of_int (sum_axis_m2 conf ! k ! i + sum_axis_m1 conf ! k ! i - conf ! k ! i ! i) + eps8)
          = Some (iou conf c k i)"
      using int_plus_eps8_nz[of "col_total conf c k i + row_total conf c k i - conf ! k ! i ! i"]
      by (simp add: np_div_def sum_axis_m2_nth[OF assms(1) k assms(3)]
            sum_axis_m1_nth[OF assms(1) k assms(3)] iou_def eps8_def)
  qed
  also have "\<dots> = map Some (map (\<lambda>k. iou conf c k i) [0..<n])" by simp
  finally have "batch_mean_iou conf i = np_mean (map Some (map (\<lambda>k. iou conf c k i) [0..<n]))"
    by (simp add: batch_mean_iou_def)
  also have "\<dots> = Some (sum_list (map (\<lambda>k. iou conf c k i) [0..<n]) / real n)"
    using assms(2) by (subst np_mean_Some) simp_all
  also have "sum_list (map (\<lambda>k. iou conf c k i) [0..<n]) = (\<Sum>k<n. iou conf c k i)"
    by (simp add: interv_sum_list_conv_sum_set_nat atLeast0LessThan)
  finally show ?thesis .
qed

lemma np_mean_None: "None \<in> set xs \<Longrightarrow> np_mean xs = None"
  by (simp add: np_mean_def)

lemma sum_list_upt_conv: "sum_list (map f [0..<n]) = (\<Sum>k<n. f k :: real)"
  by (simp add: interv_sum_list_conv_sum_set_nat atLeast0LessThan)

lemma mean_in_unit:
  assumes "0 < n" "\<And>k. k < n \<Longrightarrow> 0 \<le> f k \<and> f k \<le> (1::real)"
  shows "0 \<le> (\<Sum>k<n. f k) / real n" "(\<Sum>k<n. f k) / real n \<le> 1"
proof -
  have "0 \<le> (\<Sum>k<n. f k)" using assms(2) by (intro sum_nonneg) simp
  then show "0 \<le> (\<Sum>k<n. f k) / real n" by simp
  have "(\<Sum>k<n. f k) \<le> (\<Sum>k<n. 1)" using assms(2) by (intro sum_mono) simp
  then have "(\<Sum>k<n. f k) \<le> real n" by simp
  then show "(\<Sum>k<n. f k) / real n \<le> 1" using assms(1) by (simp add: field_simps)
qed

lemma entry_nonneg:
  assumes "nonneg_entries conf" "shape3 n c c conf" "k < n" "i < c" "j < c"
  shows "0 \<le> conf ! k ! i ! j"
proof -
  have 1: "conf ! k \<in> set conf" using assms by (simp add: shape3_def)
  have 2: "conf ! k ! i \<in> set (conf ! k)" using assms shape3_nth(1)[OF assms(2,3)] by simp
  have 3: "conf ! k ! i ! j \<in> set (conf ! k ! i)"
    using assms shape3_nth(2)[OF assms(2,3,4)] by simp
  show ?thesis using assms(1) 1 2 3 unfolding nonneg_entries_def by blast
qed

lemma iou_in_unit:
  assumes "nonneg_entries conf" "shape3 n c c conf" "k < n" "i < c"
  shows "0 \<le> iou conf c k i \<and> iou conf c k i \<le> 1"
proof -
  let ?tp = "conf ! k ! i ! i"
  have tp: "0 \<le> ?tp" using entry_nonneg[OF assms assms(4)] .
  have col: "?tp \<le> col_total conf c k i"
    unfolding col_total_def
    using entry_nonneg[OF assms(1,2,3) _ assms(4)] assms(4)
    by (intro member_le_sum) auto
  have row: "?tp \<le> row_total conf c k i"
    unfolding row_total_def
    using entry_nonneg[OF assms(1,2,3,4)] assms(4)
    by (intro member_le_sum) auto
  have d: "?tp \<le> col_total conf c k i + row_total conf c k i - ?tp" using col row by simp
  let ?den = "of_int (col_total conf c k i + row_total conf c k i - ?tp) + (1 / 10 ^ 8 :: real)"
  have "(of_int ?tp :: real) \<le> of_int (col_total conf c k i + row_total conf c k i - ?tp)"
    using d by (simp only: of_int_le_iff)
  then have le: "of_int ?tp \<le> ?den" by simp
  have "0 \<le> col_total conf c k i + row_total conf c k i - ?tp" using d tp by simp
  then have "(0::real) \<le> of_int (col_total conf c k i + row_total conf c k i - ?tp)"
    by (simp only: of_int_0_le_iff)
  moreover have "(0::real) < 1 / 10 ^ 8" by simp
  ultimately have pos: "0 < ?den" by (rule add_nonneg_pos)
  have "0 \<le> of_int ?tp / ?den" using tp pos by simp
  moreover have "of_int ?tp / ?den \<le> 1" using le pos by (simp add: field_simps)
  ultimately show ?thesis by (simp add: iou_def)
qed

lemma np_mean_upt_Some:
  assumes "0 < n"
  shows "np_mean (map (\<lambda>k. Some (f k)) [0..<n]) = Some ((\<Sum>k<n. f k) / real n)"
proof -
  have "map (\<lambda>k. Some (f k)) [0..<n] = map Some (map f [0..<n])" by simp
  then have "np_mean (map (\<lambda>k. Some (f k)) [0..<n]) = np_mean (map Some (map f [0..<n]))"
    by (simp only:)
  also have "\<dots> = Some (sum_list (map f [0..<n]) / real (length (map f [0..<n])))"
    using assms by (intro np_mean_Some) simp
  finally show ?thesis by (simp add: sum_list_upt_conv)
qed

lemma no_bg_miou_eq:
  assumes "shape3 n 3 3 conf" "0 < n"
  shows "no_bg_miou conf = Inr (Some ((\<Sum>k<n. fg_union_iou conf k) / real n))"
proof -
  have len: "length conf = n" "length (sum_axis_m2 conf) = n" "length (sum_axis_m1 conf) = n"
    using assms(1) by (simp_all add: shape3_def sum_axis_m2_def sum_axis_m1_def)
  have ok: "index_ok conf 2" using assms(1) by (rule index_ok_shape) simp
  have "map2 (\<lambda>item (sc, sr).
                               np_div (of_int (item ! 1 ! 1 + item ! 2 ! 2))
                                      (of_int (sc ! 1 + sr ! 1 - item ! 1 ! 1
                                               + sc ! 2 + sr ! 2 - item ! 2 ! 2) + eps8))
                         conf (zip (sum_axis_m2 conf) (sum_axis_m1 conf))
        = map (\<lambda>k. np_div (of_int (conf ! k ! 1 ! 1 + conf ! k ! 2 ! 2))
                 (of_int (sum_axis_m2 conf ! k ! 1 + sum_axis_m1 conf ! k ! 1 - conf ! k ! 1 ! 1
                          + sum_axis_m2 conf ! k ! 2 + sum_axis_m1 conf ! k ! 2 - conf ! k ! 2 ! 2) + eps8))
            [0..<n]"
    by (rule map2_zip_nth_conv[OF len])
  also have "\<dots> = map (\<lambda>k. Some (fg_union_iou conf k)) [0..<n]"
  proof (rule map_cong[OF refl])
    fix k assume "k \<in> set [0..<n]"
    then have k: "k < n" by simp
    have nz: "of_int (col_total conf 3 k 1 + row_total conf 3 k 1 - conf ! k ! 1 ! 1
                  + col_total conf 3 k 2 + row_total conf 3 k 2 - conf ! k ! 2 ! 2) + eps8 \<noteq> (0::real)"
      by (rule int_plus_eps8_nz)
    have e: "sum_axis_m2 conf ! k ! 1 = col_total conf 3 k 1" "sum_axis_m2 conf ! k ! 2 = col_total conf 3 k 2"
      "sum_axis_m1 conf ! k ! 1 = row_total conf 3 k 1" "sum_axis_m1 conf ! k ! 2 = row_total conf 3 k 2"
      using sum_axis_m2_nth[OF assms(1) k] sum_axis_m1_nth[OF assms(1) k] by simp_all
    show "np_div (of_int (conf ! k ! 1 ! 1 + conf ! k ! 2 ! 2))
                 (of_int (sum_axis_m2 conf ! k ! 1 + sum_axis_m1 conf ! k ! 1 - conf ! k ! 1 ! 1
                          + sum_axis_m2 conf ! k ! 2 + sum_axis_m1 conf ! k ! 2 - conf ! k ! 2 ! 2) + eps8)
          = Some (fg_union_iou conf k)"
      unfolding e using nz by (simp add: np_div_def fg_union_iou_def eps8_def)
  qed
  also have "\<dots> = map Some (map (\<lambda>k. fg_union_iou conf k) [0..<n])" by simp
  finally have "no_bg_miou conf = Inr (np_mean [np_mean (map Some (map (\<lambda>k. fg_union_iou conf k) [0..<n]))])"
    using ok by (simp add: no_bg_miou_def Let_def)
  also have "np_mean (map Some (map (\<lambda>k. fg_union_iou conf k) [0..<n]))
             = Some (sum_list (map (\<lambda>k. fg_union_iou conf k) [0..<n]) / real n)"
    using assms(2) by (subst np_mean_Some) simp_all
  finally show ?thesis by (simp add: np_mean_single sum_list_upt_conv)
qed

lemma class_mean_precision:
  assumes "shape3 n c c conf" "0 < n" "i < c"
  shows "np_mean (map2 (\<lambda>item sc. np_div (of_int (item ! i ! i)) (of_int (sc ! i) + eps7))
                    conf (sum_axis_m2 conf))
         = Some ((\<Sum>k<n. class_precision conf c k i) / real n)"
proof -
  have len: "length conf = n" "length (sum_axis_m2 conf) = n"
    using assms(1) by (simp_all add: shape3_def sum_axis_m2_def)
  have "map2 (\<lambda>item sc. np_div (of_int (item ! i ! i)) (of_int (sc ! i) + eps7)) conf (sum_axis_m2 conf)
        = map (\<lambda>k. np_div (of_int (conf ! k ! i ! i)) (of_int (sum_axis_m2 conf ! k ! i) + eps7)) [0..<n]"
    by (rule map2_nth_conv[OF len])
  also have "\<dots> = map (\<lambda>k. Some (class_precision conf c k i)) [0..<n]"
  proof (rule map_cong[OF refl])
    fix k assume "k \<in> set [0..<n]"
    then have k: "k < n" by simp
    show "np_div (of_int (conf ! k ! i ! i)) (of_int (sum_axis_m2 conf ! k ! i) + eps7)
          = Some (class_precision conf c k i)"
      unfolding sum_axis_m2_nth[OF assms(1) k assms(3)]
      using int_plus_eps7_nz[of "col_total conf c k i"]
      by (simp add: np_div_def class_precision_def eps7_def)
  qed
  finally show ?thesis
    by (simp only: np_mean_upt_Some[OF assms(2)])
qed

lemma class_mean_recall:
  assumes "shape3 n c c conf" "0 < n" "i < c"
  shows "np_mean (map2 (\<lambda>item sr. np_div (of_int (item ! i ! i)) (of_int (sr ! i)))
                    conf (sum_axis_m1 conf))
         = (if \<forall>k<n. row_total conf c k i \<noteq> 0
            then Some ((\<Sum>k<n. class_recall conf c k i) / real n) else None)"
proof -
  have len: "length conf = n" "length (sum_axis_m1 conf) = n"
    using assms(1) by (simp_all add: shape3_def sum_axis_m1_def)
  have "map2 (\<lambda>item sr. np_div (of_int (item ! i ! i)) (of_int (sr ! i))) conf (sum_axis_m1 conf)
        = map (\<lambda>k. np_div (of_int (conf ! k ! i ! i)) (of_int (sum_axis_m1 conf ! k ! i))) [0..<n]"
    by (rule map2_nth_conv[OF len])
  also have "\<dots> = map (\<lambda>k. np_div (of_int (conf ! k ! i ! i)) (of_int (row_total conf c k i))) [0..<n]"
    using sum_axis_m1_nth[OF assms(1) _ assms(3)] by simp
  finally have eq: "map2 (\<lambda>item sr. np_div (of_int (item ! i ! i)) (of_int (sr ! i))) conf (sum_axis_m1 conf)
        = map (\<lambda>k. np_div (of_int (conf ! k ! i ! i)) (of_int (row_total conf c k i))) [0..<n]" .
  show ?thesis
  proof (cases "\<forall>k<n. row_total conf c k i \<noteq> 0")
    case True
    then have "map (\<lambda>k. np_div (of_int (conf ! k ! i ! i)) (of_int (row_total conf c k i))) [0..<n]
               = map (\<lambda>k. Some (class_recall conf c k i)) [0..<n]"
      by (simp add: np_div_def class_recall_def)
    then have "np_mean (map2 (\<lambda>item sr. np_div (of_int (item ! i ! i)) (of_int (sr ! i)))
                    conf (sum_axis_m1 conf))
               = Some ((\<Sum>k<n. class_recall conf c k i) / real n)"
      unfolding eq by (simp only: np_mean_upt_Some[OF assms(2)])
    then show ?thesis using True by simp
  next
    case False
    then obtain k where k: "k < n" "row_total conf c k i = 0" by auto
    then have "None \<in> set (map (\<lambda>k. np_div (of_int (conf ! k ! i ! i)) (of_int (row_total conf c k i))) [0..<n])"
      by (auto simp: np_div_def image_iff intro!: bexI[of _ k])
    then show ?thesis using False unfolding eq by (simp add: np_mean_None)
  qed
qed

subsection \<open>Accuracy in closed form\<close>

lemma hit_iff_pred_label:
  assumes "shape4 n c h w pred" "k < n" "0 < c"
  shows "hit pred target k y x \<longleftrightarrow> int (pred_label_at pred k y x) = target ! k ! y ! x"
proof -
  have len: "length (pred ! k) = c"
    using shape4_item[OF assms(1,2)] by (simp add: shape3_def)
  show ?thesis
    using pred_label_at_iff_first_max[OF assms] pred_label_at_less[OF assms] len
    by (auto simp: hit_def)
qed

lemma length_filter_grid3:
  "length (filter P (concat (map (\<lambda>k. map (\<lambda>(y, x). f k y x) (List.product [0..<h] [0..<w])) [0..<n])))
     = card {(k, y, x). k < n \<and> y < h \<and> x < w \<and> P (f k y x)}"
proof -
  let ?ys = "List.product [0..<h] [0..<w]"
  let ?xs = "List.product [0..<n] ?ys"
  have d: "distinct ?xs" by (simp add: distinct_product)
  have "concat (map (\<lambda>k. map (\<lambda>(y, x). f k y x) ?ys) [0..<n])
        = map (\<lambda>(k, y, x). f k y x) ?xs"
    by (simp add: List.product_concat_map[of "[0..<n]"] map_concat comp_def split_def)
  then have "length (filter P (concat (map (\<lambda>k. map (\<lambda>(y, x). f k y x) ?ys) [0..<n])))
        = length (filter (\<lambda>(k, y, x). P (f k y x)) ?xs)"
    by (simp add: filter_map comp_def split_def)
  also have "\<dots> = card ({p. (\<lambda>(k, y, x). P (f k y x)) p} \<inter> set ?xs)"
    using d by (rule distinct_length_filter)
  also have "{p. (\<lambda>(k, y, x). P (f k y x)) p} \<inter> set ?xs
             = {(k, y, x). k < n \<and> y < h \<and> x < w \<and> P (f k y x)}"
    by auto
  finally show ?thesis .
qed

lemma flat_pred:
  "map concat (map (\<lambda>k. map (\<lambda>y. map (\<lambda>x. pred_label_at pred k y x) [0..<w]) [0..<h]) [0..<n])
     = map (\<lambda>k. map (\<lambda>(y, x). pred_label_at pred k y x) (List.product [0..<h] [0..<w])) [0..<n]"
  by (simp add: concat_grid comp_def)

lemma flat_target:
  assumes "shape3 n h w target"
  shows "map concat target
           = map (\<lambda>k. map (\<lambda>(y, x). target ! k ! y ! x) (List.product [0..<h] [0..<w])) [0..<n]"
proof (rule nth_equalityI)
  have lt: "length target = n" using assms by (simp add: shape3_def)
  show "length (map concat target)
        = length (map (\<lambda>k. map (\<lambda>(y, x). target ! k ! y ! x) (List.product [0..<h] [0..<w])) [0..<n])"
    using lt by simp
  fix k assume "k < length (map concat target)"
  then have k: "k < n" using lt by simp
  show "map concat target ! k
        = map (\<lambda>k. map (\<lambda>(y, x). target ! k ! y ! x) (List.product [0..<h] [0..<w])) [0..<n] ! k"
    using k lt concat_shape[OF shape3_item[OF assms k]] by simp
qed

lemma map2_upt:
  "map2 F (map A [0..<n]) (map B [0..<n]) = map (\<lambda>k. F (A k) (B k)) [0..<n]"
  by (simp add: zip_map_map zip_same_conv_map)

lemma zip_grid:
  "zip (map (\<lambda>(y, x). f y x) xs) (map (\<lambda>(y, x). g y x) xs) = map (\<lambda>(y, x). (f y x, g y x)) xs"
  by (simp add: zip_map_map zip_same_conv_map split_def)

lemma accuracy_plain_closed_form:
  assumes "shape4 n c h w pred" "shape3 n h w target" "ignore_idx self = None" "0 < c"
  shows "accuracy self pred target
           = Inr (np_mean (map (\<lambda>k. np_div (real (card {(y, x). y < h \<and> x < w \<and> hit pred target k y x}))
                                            (real (h * w))) [0..<n]))"
proof -
  let ?prod = "List.product [0..<h] [0..<w]"
  let ?PL = "map (\<lambda>k. map (\<lambda>y. map (\<lambda>x. pred_label_at pred k y x) [0..<w]) [0..<h]) [0..<n]"
  let ?P = "\<lambda>k. map (\<lambda>(y, x). pred_label_at pred k y x) ?prod"
  let ?T = "\<lambda>k. map (\<lambda>(y, x). target ! k ! y ! x) ?prod"
  have am1: "argmax_axis1 pred = Inr ?PL" using assms(1,4) by (rule argmax_axis1_shape)
  have fp: "map concat ?PL = map ?P [0..<n]" by (rule flat_pred)
  have ft: "map concat target = map ?T [0..<n]" using assms(2) by (rule flat_target)
  have lens: "(map length (map ?P [0..<n]) \<noteq> map length (map ?T [0..<n])) = False" by simp
  have rows: "map2 (\<lambda>p t. np_div (real (length (filter (\<lambda>(pv, tv). int pv = tv) (zip p t))))
                                                   (real (length p)))
                (map ?P [0..<n]) (map ?T [0..<n])
              = map (\<lambda>k. np_div (real (card {(y, x). y < h \<and> x < w \<and> hit pred target k y x}))
                                            (real (h * w))) [0..<n]"
  proof -
    have "map2 (\<lambda>p t. np_div (real (length (filter (\<lambda>(pv, tv). int pv = tv) (zip p t))))
                                                   (real (length p)))
                (map ?P [0..<n]) (map ?T [0..<n])
          = map (\<lambda>k. np_div (real (length (filter (\<lambda>(pv, tv). int pv = tv) (zip (?P k) (?T k)))))
                                                   (real (length (?P k)))) [0..<n]"
      by (rule map2_upt)
    also have "\<dots> = map (\<lambda>k. np_div (real (card {(y, x). y < h \<and> x < w \<and> hit pred target k y x}))
                                            (real (h * w))) [0..<n]"
    proof (rule map_cong[OF refl])
      fix k assume "k \<in> set [0..<n]"
      then have k: "k < n" by simp
      have "length (filter (\<lambda>(pv, tv). int pv = tv) (zip (?P k) (?T k)))
            = length (filter (\<lambda>(pv, tv). int pv = tv)
                        (map (\<lambda>(y, x). (pred_label_at pred k y x, target ! k ! y ! x)) ?prod))"
        by (simp only: zip_grid)
      also have "\<dots> = card {(y, x). y < h \<and> x < w
                              \<and> (\<lambda>(pv, tv). int pv = tv) (pred_label_at pred k y x, target ! k ! y ! x)}"
        by (rule length_filter_grid)
      also have "{(y, x). y < h \<and> x < w
                              \<and> (\<lambda>(pv, tv). int pv = tv) (pred_label_at pred k y x, target ! k ! y ! x)}
                 = {(y, x). y < h \<and> x < w \<and> hit pred target k y x}"
        using hit_iff_pred_label[OF assms(1) k assms(4)] by auto
      finally have c: "length (filter (\<lambda>(pv, tv). int pv = tv) (zip (?P k) (?T k)))
            = card {(y, x). y < h \<and> x < w \<and> hit pred target k y x}" .
      have l: "length (?P k) = h * w" by simp
      show "np_div (real (length (filter (\<lambda>(pv, tv). int pv = tv) (zip (?P k) (?T k)))))
                                                   (real (length (?P k)))
            = np_div (real (card {(y, x). y < h \<and> x < w \<and> hit pred target k y x}))
                                            (real (h * w))"
        by (simp only: c l)
    qed
    finally show ?thesis .
  qed
  show ?thesis
    by (simp only: accuracy_def am1 sum.case Let_def fp ft lens if_False assms(3) option.case rows)
qed

lemma accuracy_ignore_closed_form:
  assumes "shape4 n c h w pred" "shape3 n h w target" "ignore_idx self = Some ig" "0 < c"
  shows "accuracy self pred target
           = Inr (np_div (real (card {(k, y, x). k < n \<and> y < h \<and> x < w
                                       \<and> target ! k ! y ! x \<noteq> ig \<and> hit pred target k y x}))
                         (real (card {(k, y, x). k < n \<and> y < h \<and> x < w \<and> target ! k ! y ! x \<noteq> ig})))"
proof -
  let ?prod = "List.product [0..<h] [0..<w]"
  let ?PL = "map (\<lambda>k. map (\<lambda>y. map (\<lambda>x. pred_label_at pred k y x) [0..<w]) [0..<h]) [0..<n]"
  let ?P = "\<lambda>k. map (\<lambda>(y, x). pred_label_at pred k y x) ?prod"
  let ?T = "\<lambda>k. map (\<lambda>(y, x). target ! k ! y ! x) ?prod"
  let ?Z = "concat (map (\<lambda>k. map (\<lambda>(y, x). (pred_label_at pred k y x, target ! k ! y ! x)) ?prod) [0..<n])"
  have am1: "argmax_axis1 pred = Inr ?PL" using assms(1,4) by (rule argmax_axis1_shape)
  have fp: "map concat ?PL = map ?P [0..<n]" by (rule flat_pred)
  have ft: "map concat target = map ?T [0..<n]" using assms(2) by (rule flat_target)
  have lens: "(map length (map ?P [0..<n]) \<noteq> map length (map ?T [0..<n])) = False" by simp
  have z: "concat (map2 zip (map ?P [0..<n]) (map ?T [0..<n])) = ?Z"
    by (simp only: map2_upt zip_grid)
  have kept: "length (filter (\<lambda>(pv, tv). tv \<noteq> ig) ?Z)
              = card {(k, y, x). k < n \<and> y < h \<and> x < w \<and> target ! k ! y ! x \<noteq> ig}"
  proof -
    have "length (filter (\<lambda>(pv, tv). tv \<noteq> ig) ?Z)
          = card {(k, y, x). k < n \<and> y < h \<and> x < w
                   \<and> (\<lambda>(pv, tv). tv \<noteq> ig) (pred_label_at pred k y x, target ! k ! y ! x)}"
      by (rule length_filter_grid3)
    then show ?thesis by simp
  qed
  have good: "length (filter (\<lambda>(pv, tv). int pv = tv) (filter (\<lambda>(pv, tv). tv \<noteq> ig) ?Z))
              = card {(k, y, x). k < n \<and> y < h \<and> x < w
                       \<and> target ! k ! y ! x \<noteq> ig \<and> hit pred target k y x}"
  proof -
    have "filter (\<lambda>(pv, tv). int pv = tv) (filter (\<lambda>(pv, tv). tv \<noteq> ig) ?Z)
          = filter (\<lambda>(pv, tv). tv \<noteq> ig \<and> int pv = tv) ?Z"
      by (simp only: filter_filter split_def conj_commute)
    then have "length (filter (\<lambda>(pv, tv). int pv = tv) (filter (\<lambda>(pv, tv). tv \<noteq> ig) ?Z))
          = length (filter (\<lambda>(pv, tv). tv \<noteq> ig \<and> int pv = tv) ?Z)"
      by (simp only:)
    also have "\<dots> = card {(k, y, x). k < n \<and> y < h \<and> x < w
                   \<and> (\<lambda>(pv, tv). tv \<noteq> ig \<and> int pv = tv) (pred_label_at pred k y x, target ! k ! y ! x)}"
      by (rule length_filter_grid3)
    also have "{(k, y, x). k < n \<and> y < h \<and> x < w
                   \<and> (\<lambda>(pv, tv). tv \<noteq> ig \<and> int pv = tv) (pred_label_at pred k y x, target ! k ! y ! x)}
               = {(k, y, x). k < n \<and> y < h \<and> x < w
                       \<and> target ! k ! y ! x \<noteq> ig \<and> hit pred target k y x}"
      using hit_iff_pred_label[OF assms(1) _ assms(4)] by auto
    finally show ?thesis .
  qed
  show ?thesis
    by (simp only: accuracy_def am1 sum.case Let_def fp ft lens if_False assms(3) option.case z
          kept good np_mean_single)
qed

lemma card_grid_list:
  "card {(y, x). y < h \<and> x < w \<and> P y x}
     = length (filter (\<lambda>(y, x). P y x) (List.product [0..<h] [0..<w]))"
  using length_filter_grid[of "\<lambda>p. P (fst p) (snd p)" "\<lambda>y x. (y, x)" h w]
  by (simp add: split_def)

lemma card_grid_le: "card {(y, x). y < h \<and> x < w \<and> P y x} \<le> h * w"
proof -
  have "card {(y, x). y < h \<and> x < w \<and> P y x} \<le> card ({..<h} \<times> {..<w})"
    by (intro card_mono) auto
  then show ?thesis by simp
qed

lemma card_grid_full:
  assumes "\<forall>y<h. \<forall>x<w. P y x"
  shows "card {(y, x). y < h \<and> x < w \<and> P y x} = h * w"
proof -
  have "{(y, x). y < h \<and> x < w \<and> P y x} = {..<h} \<times> {..<w}" using assms by auto
  then show ?thesis by simp
qed

lemma kept_empty_iff:
  fixes n h w :: nat
  shows "(card {(k, y, x). k < n \<and> y < h \<and> x < w \<and> P k y x} = 0)
     \<longleftrightarrow> (\<forall>k<n. \<forall>y<h. \<forall>x<w. \<not> P k y x)"
proof -
  have "finite ({..<n} \<times> {..<h} \<times> {..<w})" by simp
  moreover have "{(k, y, x). k < n \<and> y < h \<and> x < w \<and> P k y x} \<subseteq> {..<n} \<times> {..<h} \<times> {..<w}"
    by auto
  ultimately have "finite {(k, y, x). k < n \<and> y < h \<and> x < w \<and> P k y x}"
    by (rule rev_finite_subset)
  then have "(card {(k, y, x). k < n \<and> y < h \<and> x < w \<and> P k y x} = 0)
             \<longleftrightarrow> {(k, y, x). k < n \<and> y < h \<and> x < w \<and> P k y x} = {}"
    by (rule card_0_eq)
  also have "\<dots> \<longleftrightarrow> (\<forall>k<n. \<forall>y<h. \<forall>x<w. \<not> P k y x)" by auto
  finally show ?thesis .
qed

subsection \<open>The empty batch\<close>

text \<open>
  A batch of no items is not a batch the metrics are meant for: \<open>np.reshape(_, (0, -1))\<close>
  raises, and elsewhere the mean over no item is \<open>nan\<close>. The theorems on the metrics are
  therefore stated for \<open>N \<ge> 1\<close>.
\<close>

lemma empty_batch_confusion_matrix:
  "make_confusion_matrix self [] dt [] = Inl ValueError"
  by (simp add: make_confusion_matrix_def argmax_axis1_def)

lemma empty_batch_accuracy:
  "accuracy self [] [] = Inr None"
  by (cases "ignore_idx self") (simp_all add: accuracy_def argmax_axis1_def np_mean_def np_div_def)

lemma empty_batch_miou:
  "miou self [] = Inr (replicate (num_classes self) None, None)"
proof -
  have "batch_mean_iou [] = (\<lambda>i. None)"
    by (rule ext) (simp add: batch_mean_iou_def np_mean_def)
  then have "map (batch_mean_iou []) [0..<num_classes self] = replicate (num_classes self) None"
    by (simp add: map_replicate_const)
  moreover have "np_mean (replicate (num_classes self) None) = None"
    by (cases "num_classes self") (simp_all add: np_mean_def)
  ultimately show ?thesis by (simp add: miou_def index_ok_def)
qed

section \<open>The claims\<close>

subsection \<open>Entries of the confusion matrix: labels of a narrow dtype\<close>

text \<open>
  Claim C1 says that for labels in \<open>[0, C)\<close> the entry \<open>[n, i, j]\<close> of the confusion matrix is
  the number of pixels of item \<open>n\<close> with label \<open>i\<close> and predicted label \<open>j\<close>, obtained from
  the codes \<open>C * label + predicted label\<close>; the comment in the source says the same
  (\<open>num_classes * gt + pred = category\<close>). The function computes the product in the dtype
  of the label array, where it wraps around. With 17 classes and labels of dtype \<open>uint8\<close>,
  a pixel with label 16 and predicted label 0 has the product \<open>17 * 16 = 272\<close>, which is 16
  in \<open>uint8\<close>: the pixel is counted in cell \<open>[0, 16]\<close>, and cell \<open>[16, 0]\<close>, where the claim
  counts it, stays 0. The same label in an \<open>int64\<close> array is counted in cell \<open>[16, 0]\<close>.
\<close>

theorem confusion_matrix_uint8_wrap:
  "pred_label_at (flat_scores 17) 0 0 0 = 0 \<and>
   wrap UInt8 (17 * 16) = 16 \<and>
   make_confusion_matrix \<lparr>num_classes = 17, ignore_idx = None\<rparr> (flat_scores 17) UInt8 [[[16]]]
     = Inr (single_count 17 0 16) \<and>
   single_count 17 0 16 ! 0 ! 16 ! 0 = 0 \<and>
   single_count 17 0 16 ! 0 ! 0 ! 16 = 1 \<and>
   make_confusion_matrix \<lparr>num_classes = 17, ignore_idx = None\<rparr> (flat_scores 17) Int64 [[[16]]]
     = Inr (single_count 17 16 0)"
  by code_simp

subsection \<open>Total of the confusion matrix: labels of a narrow signed dtype\<close>

text \<open>
  Claim C2 says that for labels in \<open>[0, C)\<close> the entries of the confusion matrix of every
  batch item add up to \<open>H * W\<close>, whatever \<open>ignore_idx\<close> is. The wrap-around of the product
  \<open>C * label\<close> in the dtype of the labels (see C1) breaks this for a signed dtype: with 12
  classes and labels of dtype \<open>int8\<close>, the label 11 gives \<open>12 * 11 = 132\<close>, which is \<open>-124\<close>
  in \<open>int8\<close>; the code of the pixel is negative, \<open>np.bincount\<close> raises \<open>ValueError\<close> and no
  matrix is produced, with or without \<open>ignore_idx\<close>. The same label in an \<open>int64\<close> array
  gives a matrix with the single count 1.
\<close>

theorem confusion_matrix_int8_wrap:
  "wrap Int8 (12 * 11) = - 124 \<and>
   make_confusion_matrix \<lparr>num_classes = 12, ignore_idx = None\<rparr> (flat_scores 12) Int8 [[[11]]]
     = Inl ValueError \<and>
   make_confusion_matrix \<lparr>num_classes = 12, ignore_idx = Some 0\<rparr> (flat_scores 12) Int8 [[[11]]]
     = Inl ValueError \<and>
   make_confusion_matrix \<lparr>num_classes = 12, ignore_idx = None\<rparr> (flat_scores 12) Int64 [[[11]]]
     = Inr (single_count 12 11 0)"
  by code_simp

subsection \<open>Mean IoU\<close>

text \<open>
  Claim C3. For a confusion matrix of shape \<open>(N, C, C)\<close> with \<open>N \<ge> 1\<close> and
  \<open>C = num_classes \<ge> 1\<close>, \<open>miou\<close> returns a list of \<open>C\<close> finite values, one per class and
  class 0 included, the value of class \<open>i\<close> being the mean over the batch of
  \<open>conf[n,i,i] / (sum_col[n,i] + sum_row[n,i] - conf[n,i,i] + 1e-8)\<close>, together with the
  mean of that list, which is finite; when no entry of the matrix is negative (the
  matrix of zeros included) this mean lies in \<open>[0, 1]\<close>.
\<close>

theorem miou_formula:
  assumes "shape3 N C C conf" and "num_classes self = C" and "0 < N" and "0 < C"
  shows "\<exists>ious. miou self conf = Inr (map Some ious, Some ((\<Sum>i<C. ious ! i) / real C)) \<and>
           length ious = C \<and>
           (\<forall>i<C. ious ! i = (\<Sum>n<N. iou conf C n i) / real N) \<and>
           (nonneg_entries conf \<longrightarrow>
              0 \<le> (\<Sum>i<C. ious ! i) / real C \<and> (\<Sum>i<C. ious ! i) / real C \<le> 1)"
proof -
  let ?ious = "map (\<lambda>i. (\<Sum>n<N. iou conf C n i) / real N) [0..<C]"
  have ok: "(\<exists>i \<in> set [0..<num_classes self]. \<not> index_ok conf i) = False"
    using assms(1,2) index_ok_shape by auto
  have l: "map (batch_mean_iou conf) [0..<num_classes self] = map Some ?ious"
    using batch_mean_iou_eq[OF assms(1,3)] assms(2) by simp
  have m: "np_mean (map Some ?ious) = Some (sum_list ?ious / real C)"
    using assms(4) by (subst np_mean_Some) simp_all
  have s: "sum_list ?ious = (\<Sum>i<C. ?ious ! i)"
    by (simp add: sum_list_upt_conv)
  have 1: "miou self conf = Inr (map Some ?ious, Some ((\<Sum>i<C. ?ious ! i) / real C))"
    unfolding miou_def ok l Let_def m s by simp
  have 2: "length ?ious = C" by simp
  have 3: "\<forall>i<C. ?ious ! i = (\<Sum>n<N. iou conf C n i) / real N" by simp
  have 4: "0 \<le> (\<Sum>i<C. ?ious ! i) / real C \<and> (\<Sum>i<C. ?ious ! i) / real C \<le> 1"
    if nn: "nonneg_entries conf"
  proof -
    have "0 \<le> ?ious ! i \<and> ?ious ! i \<le> 1" if "i < C" for i
      using mean_in_unit[OF assms(3), of "\<lambda>n. iou conf C n i"]
            iou_in_unit[OF nn assms(1) _ that] that by simp
    then show ?thesis using mean_in_unit[OF assms(4), of "\<lambda>i. ?ious ! i"] by blast
  qed
  show ?thesis using 1 2 3 4 by blast
qed

theorem miou_formula_witness:
  "shape3 2 3 3 example_conf \<and> num_classes \<lparr>num_classes = 3, ignore_idx = None\<rparr> = 3 \<and>
   (0::nat) < 2 \<and> (0::nat) < 3 \<and> nonneg_entries example_conf \<and>
   miou \<lparr>num_classes = 3, ignore_idx = None\<rparr> example_conf
     = Inr ([Some (100000000 / 200000001), Some (50000000 / 100000001), Some (50000000 / 100000001)],
            Some (30000000200000000 / 60000000900000003)) \<and>
   (\<exists>ious. miou \<lparr>num_classes = 3, ignore_idx = None\<rparr> example_conf
              = Inr (map Some ious, Some ((\<Sum>i<3. ious ! i) / real 3)) \<and>
           length ious = 3 \<and>
           (\<forall>i<3. ious ! i = (\<Sum>n<2. iou example_conf 3 n i) / real 2) \<and>
           0 \<le> (\<Sum>i<3. ious ! i) / real 3 \<and> (\<Sum>i<3. ious ! i) / real 3 \<le> 1)"
proof -
  have h: "shape3 2 3 3 example_conf" "num_classes \<lparr>num_classes = 3, ignore_idx = None\<rparr> = 3"
    "(0::nat) < 2" "(0::nat) < 3"
    by (simp_all add: shape3_def example_conf_def)
  have n: "nonneg_entries example_conf"
    by (simp add: nonneg_entries_def example_conf_def)
  have e: "miou \<lparr>num_classes = 3, ignore_idx = None\<rparr> example_conf
     = Inr ([Some (100000000 / 200000001), Some (50000000 / 100000001), Some (50000000 / 100000001)],
            Some (30000000200000000 / 60000000900000003))"
    by code_simp
  show ?thesis
    using h n e miou_formula[OF h] by blast
qed

subsection \<open>Foreground IoU\<close>

text \<open>
  Claim C4. For a confusion matrix of shape \<open>(N, 3, 3)\<close> with \<open>N \<ge> 1\<close>, \<open>no_bg_miou\<close>
  returns the mean over the batch of the union IoU of classes 1 and 2; and when
  \<open>conf[n,1,1] = conf[n,2,2] = 0\<close> for every item and some entry off the diagonal in a
  foreground row or column is not zero, the result is 0.
\<close>

theorem no_bg_miou_formula:
  assumes "shape3 N 3 3 conf" and "0 < N"
  shows "no_bg_miou conf = Inr (Some ((\<Sum>n<N. fg_union_iou conf n) / real N)) \<and>
         ((\<forall>n<N. conf ! n ! 1 ! 1 = 0 \<and> conf ! n ! 2 ! 2 = 0) \<and>
          (\<exists>n<N. \<exists>i<3. \<exists>j<3. i \<noteq> j \<and> (0 < i \<or> 0 < j) \<and> conf ! n ! i ! j \<noteq> 0)
            \<longrightarrow> no_bg_miou conf = Inr (Some 0))"
proof -
  have 1: "no_bg_miou conf = Inr (Some ((\<Sum>n<N. fg_union_iou conf n) / real N))"
    using assms by (rule no_bg_miou_eq)
  have 2: "no_bg_miou conf = Inr (Some 0)"
    if "\<forall>n<N. conf ! n ! 1 ! 1 = 0 \<and> conf ! n ! 2 ! 2 = 0"
  proof -
    have "fg_union_iou conf n = 0" if "n < N" for n
      using that \<open>\<forall>n<N. conf ! n ! 1 ! 1 = 0 \<and> conf ! n ! 2 ! 2 = 0\<close>
      by (simp add: fg_union_iou_def)
    then have "(\<Sum>n<N. fg_union_iou conf n) = 0" by simp
    then show ?thesis using 1 by simp
  qed
  show ?thesis using 1 2 by blast
qed

theorem no_bg_miou_formula_witness:
  "shape3 1 3 3 background_conf \<and> (0::nat) < 1 \<and>
   background_conf ! 0 ! 1 ! 1 = 0 \<and> background_conf ! 0 ! 2 ! 2 = 0 \<and>
   background_conf ! 0 ! 1 ! 0 \<noteq> 0 \<and>
   no_bg_miou background_conf = Inr (Some ((\<Sum>n<1. fg_union_iou background_conf n) / real 1)) \<and>
   no_bg_miou background_conf = Inr (Some 0)"
proof -
  have h: "shape3 1 3 3 background_conf" "(0::nat) < 1"
    by (simp_all add: shape3_def background_conf_def)
  have z: "background_conf ! 0 ! 1 ! 1 = 0" "background_conf ! 0 ! 2 ! 2 = 0"
    "background_conf ! 0 ! 1 ! 0 \<noteq> 0"
    by (simp_all add: background_conf_def)
  have a: "\<forall>n<1. background_conf ! n ! 1 ! 1 = 0 \<and> background_conf ! n ! 2 ! 2 = 0"
    using z by simp
  have b: "\<exists>n<1. \<exists>i<3. \<exists>j<3. i \<noteq> j \<and> (0 < i \<or> 0 < j) \<and> background_conf ! n ! i ! j \<noteq> 0"
  proof -
    have "(0::nat) < 1 \<and> (1::nat) < 3 \<and> (0::nat) < 3 \<and> (1::nat) \<noteq> 0 \<and> ((0::nat) < 1 \<or> (0::nat) < 0)
          \<and> background_conf ! 0 ! 1 ! 0 \<noteq> 0"
      using z by simp
    then show ?thesis by blast
  qed
  show ?thesis
    using h z a b no_bg_miou_formula[OF h] by blast
qed

subsection \<open>Precision and recall\<close>

text \<open>
  Claim C5. For a confusion matrix of shape \<open>(N, C, C)\<close> with \<open>N \<ge> 1\<close> and
  \<open>C = num_classes \<ge> 2\<close>, \<open>precision\<close> is the mean over the classes \<open>1..C-1\<close> of the
  batch mean of \<open>conf[n,i,i] / (sum_col[n,i] + 1e-7)\<close>, and \<open>recall\<close> is the mean over the
  same classes of the batch mean of \<open>conf[n,i,i] / sum_row[n,i]\<close>: nothing is added to
  that divisor, so the result is non-finite as soon as one of these row sums is zero.
  Class 0 enters neither.
\<close>

theorem precision_recall_formula:
  assumes "shape3 N C C conf" and "num_classes self = C" and "0 < N" and "2 \<le> C"
  shows "precision self conf
           = Inr (Some ((\<Sum>i = 1..<C. (\<Sum>n<N. class_precision conf C n i) / real N) / real (C - 1))) \<and>
         recall self conf
           = Inr (if \<forall>i \<in> {1..<C}. \<forall>n<N. row_total conf C n i \<noteq> 0
                  then Some ((\<Sum>i = 1..<C. (\<Sum>n<N. class_recall conf C n i) / real N) / real (C - 1))
                  else None)"
proof -
  have ok: "(\<exists>i \<in> set [1..<C]. \<not> index_ok conf i) = False"
    using assms(1) index_ok_shape by auto
  have ne: "[1..<C] \<noteq> []" using assms(4) by simp
  have lenC: "real (length [1..<C]) = real (C - 1)" by simp
  have p: "map (\<lambda>i. np_mean (map2 (\<lambda>item sc. np_div (of_int (item ! i ! i)) (of_int (sc ! i) + eps7))
                                   conf (sum_axis_m2 conf))) [1..<C]
           = map Some (map (\<lambda>i. (\<Sum>n<N. class_precision conf C n i) / real N) [1..<C])"
    using class_mean_precision[OF assms(1,3)] by simp
  have "precision self conf
          = Inr (np_mean (map Some (map (\<lambda>i. (\<Sum>n<N. class_precision conf C n i) / real N) [1..<C])))"
    unfolding precision_def assms(2) ok Let_def p by simp
  also have "np_mean (map Some (map (\<lambda>i. (\<Sum>n<N. class_precision conf C n i) / real N) [1..<C]))
             = Some (sum_list (map (\<lambda>i. (\<Sum>n<N. class_precision conf C n i) / real N) [1..<C])
                     / real (length (map (\<lambda>i. (\<Sum>n<N. class_precision conf C n i) / real N) [1..<C])))"
    using ne by (intro np_mean_Some) simp
  finally have P: "precision self conf
           = Inr (Some ((\<Sum>i = 1..<C. (\<Sum>n<N. class_precision conf C n i) / real N) / real (C - 1)))"
    by (simp add: interv_sum_list_conv_sum_set_nat)
  have r: "map (\<lambda>i. np_mean (map2 (\<lambda>item sr. np_div (of_int (item ! i ! i)) (of_int (sr ! i)))
                                   conf (sum_axis_m1 conf))) [1..<C]
           = map (\<lambda>i. if \<forall>n<N. row_total conf C n i \<noteq> 0
                        then Some ((\<Sum>n<N. class_recall conf C n i) / real N) else None) [1..<C]"
    using class_mean_recall[OF assms(1,3)] by simp
  have R0: "recall self conf
          = Inr (np_mean (map (\<lambda>i. if \<forall>n<N. row_total conf C n i \<noteq> 0
                        then Some ((\<Sum>n<N. class_recall conf C n i) / real N) else None) [1..<C]))"
    unfolding recall_def assms(2) ok Let_def r by simp
  have R: "recall self conf
           = Inr (if \<forall>i \<in> {1..<C}. \<forall>n<N. row_total conf C n i \<noteq> 0
                  then Some ((\<Sum>i = 1..<C. (\<Sum>n<N. class_recall conf C n i) / real N) / real (C - 1))
                  else None)"
  proof (cases "\<forall>i \<in> {1..<C}. \<forall>n<N. row_total conf C n i \<noteq> 0")
    case True
    then have eqL: "map (\<lambda>i. if \<forall>n<N. row_total conf C n i \<noteq> 0
                        then Some ((\<Sum>n<N. class_recall conf C n i) / real N) else None) [1..<C]
               = map Some (map (\<lambda>i. (\<Sum>n<N. class_recall conf C n i) / real N) [1..<C])"
      by simp
    have "recall self conf
          = Inr (np_mean (map Some (map (\<lambda>i. (\<Sum>n<N. class_recall conf C n i) / real N) [1..<C])))"
      unfolding R0 eqL by (rule refl)
    also have "np_mean (map Some (map (\<lambda>i. (\<Sum>n<N. class_recall conf C n i) / real N) [1..<C]))
             = Some (sum_list (map (\<lambda>i. (\<Sum>n<N. class_recall conf C n i) / real N) [1..<C])
                     / real (length (map (\<lambda>i. (\<Sum>n<N. class_recall conf C n i) / real N) [1..<C])))"
      using ne by (intro np_mean_Some) simp
    finally show ?thesis using True by (simp add: interv_sum_list_conv_sum_set_nat)
  next
    case False
    then obtain i where i: "i \<in> {1..<C}" "\<not> (\<forall>n<N. row_total conf C n i \<noteq> 0)" by blast
    then have "None \<in> set (map (\<lambda>i. if \<forall>n<N. row_total conf C n i \<noteq> 0
                        then Some ((\<Sum>n<N. class_recall conf C n i) / real N) else None) [1..<C])"
      by (auto simp: image_iff intro!: bexI[of _ i])
    then show ?thesis using False R0 by (simp add: np_mean_None)
  qed
  show ?thesis using P R by blast
qed

theorem precision_recall_formula_witness:
  "shape3 1 3 3 diagonal_conf \<and> num_classes \<lparr>num_classes = 3, ignore_idx = None\<rparr> = 3 \<and>
   (0::nat) < 1 \<and> (2::nat) \<le> 3 \<and>
   precision \<lparr>num_classes = 3, ignore_idx = None\<rparr> diagonal_conf = Inr (Some (10000000 / 10000001)) \<and>
   recall \<lparr>num_classes = 3, ignore_idx = None\<rparr> diagonal_conf = Inr (Some 1) \<and>
   precision \<lparr>num_classes = 3, ignore_idx = None\<rparr> diagonal_conf
     = Inr (Some ((\<Sum>i = 1..<3. (\<Sum>n<1. class_precision diagonal_conf 3 n i) / real 1) / real (3 - 1))) \<and>
   recall \<lparr>num_classes = 3, ignore_idx = None\<rparr> diagonal_conf
     = Inr (if \<forall>i \<in> {1..<3}. \<forall>n<1. row_total diagonal_conf 3 n i \<noteq> 0
            then Some ((\<Sum>i = 1..<3. (\<Sum>n<1. class_recall diagonal_conf 3 n i) / real 1) / real (3 - 1))
            else None)"
proof -
  have h: "shape3 1 3 3 diagonal_conf" "num_classes \<lparr>num_classes = 3, ignore_idx = None\<rparr> = 3"
    "(0::nat) < 1" "(2::nat) \<le> 3"
    by (simp_all add: shape3_def diagonal_conf_def)
  have e: "precision \<lparr>num_classes = 3, ignore_idx = None\<rparr> diagonal_conf = Inr (Some (10000000 / 10000001))"
    "recall \<lparr>num_classes = 3, ignore_idx = None\<rparr> diagonal_conf = Inr (Some 1)"
    by code_simp+
  show ?thesis
    using h e precision_recall_formula[OF h] by blast
qed

subsection \<open>Accuracy without \<open>ignore_idx\<close>\<close>

text \<open>
  Claim C6. Without \<open>ignore_idx\<close>, for \<open>pred\<close> of shape \<open>(N, C, H, W)\<close> and \<open>target\<close> of shape
  \<open>(N, H, W)\<close> with \<open>N, C, H * W \<ge> 1\<close>, \<open>accuracy\<close> returns the mean over the batch items
  of (number of pixels of the item at which the prediction is right) / \<open>(H * W)\<close>. The
  value lies in \<open>[0, 1]\<close>, and it is 1 when the prediction is right at every pixel.
\<close>

theorem accuracy_without_ignore:
  assumes "shape4 N C H W pred" and "shape3 N H W target" and "ignore_idx self = None"
    and "0 < N" and "0 < C" and "0 < H * W"
  shows "\<exists>acc. accuracy self pred target = Inr (Some acc) \<and>
           acc = (\<Sum>n<N. real (card {(h, w). h < H \<and> w < W \<and> hit pred target n h w}) / real (H * W))
                   / real N \<and>
           0 \<le> acc \<and> acc \<le> 1 \<and>
           ((\<forall>n<N. \<forall>h<H. \<forall>w<W. hit pred target n h w) \<longrightarrow> acc = 1)"
proof -
  let ?frac = "\<lambda>n. real (card {(h, w). h < H \<and> w < W \<and> hit pred target n h w}) / real (H * W)"
  let ?acc = "(\<Sum>n<N. ?frac n) / real N"
  have nz: "real (H * W) \<noteq> 0" using assms(6) by simp
  have "accuracy self pred target
          = Inr (np_mean (map (\<lambda>k. np_div (real (card {(y, x). y < H \<and> x < W \<and> hit pred target k y x}))
                                            (real (H * W))) [0..<N]))"
    using assms(1,2,3,5) by (rule accuracy_plain_closed_form)
  also have "map (\<lambda>k. np_div (real (card {(y, x). y < H \<and> x < W \<and> hit pred target k y x}))
                                            (real (H * W))) [0..<N]
             = map (\<lambda>k. Some (?frac k)) [0..<N]"
    using nz by (simp add: np_div_def)
  also have "np_mean (map (\<lambda>k. Some (?frac k)) [0..<N]) = Some ?acc"
    using assms(4) by (rule np_mean_upt_Some)
  finally have 1: "accuracy self pred target = Inr (Some ?acc)" .
  have unit: "0 \<le> ?frac n \<and> ?frac n \<le> 1" for n
  proof -
    have "real (card {(h, w). h < H \<and> w < W \<and> hit pred target n h w}) \<le> real (H * W)"
      using card_grid_le[of H W "\<lambda>h w. hit pred target n h w"] by (simp only: of_nat_le_iff)
    then show ?thesis using assms(6) by (simp add: field_simps)
  qed
  have 2: "0 \<le> ?acc" "?acc \<le> 1"
    using mean_in_unit[OF assms(4), of ?frac] unit by blast+
  have 3: "?acc = 1" if all: "\<forall>n<N. \<forall>h<H. \<forall>w<W. hit pred target n h w"
  proof -
    have one: "?frac n = 1" if "n < N" for n
    proof -
      have "card {(h, w). h < H \<and> w < W \<and> hit pred target n h w} = H * W"
        using all that by (intro card_grid_full) simp
      then have "?frac n = real (H * W) / real (H * W)" by (simp only:)
      also have "\<dots> = 1" using nz by (rule divide_self)
      finally show ?thesis .
    qed
    have "(\<Sum>n<N. ?frac n) = (\<Sum>n<N. 1)"
      by (rule sum.cong[OF refl]) (use one in blast)
    then have "(\<Sum>n<N. ?frac n) = real N" by simp
    then show ?thesis using assms(4) by (simp only: divide_self_if) simp
  qed
  show ?thesis using 1 2 3 by blast
qed

theorem accuracy_without_ignore_witness:
  "shape4 1 3 2 2 scenario_pred \<and> shape3 1 2 2 scenario_target \<and>
   ignore_idx \<lparr>num_classes = 3, ignore_idx = None\<rparr> = None \<and>
   (0::nat) < 1 \<and> (0::nat) < 3 \<and> (0::nat) < 2 * 2 \<and>
   accuracy \<lparr>num_classes = 3, ignore_idx = None\<rparr> scenario_pred scenario_target = Inr (Some 1) \<and>
   (\<exists>acc. accuracy \<lparr>num_classes = 3, ignore_idx = None\<rparr> scenario_pred scenario_target = Inr (Some acc) \<and>
      acc = (\<Sum>n<1. real (card {(h, w). h < 2 \<and> w < 2 \<and> hit scenario_pred scenario_target n h w})
                        / real (2 * 2)) / real 1 \<and>
      0 \<le> acc \<and> acc \<le> 1)"
proof -
  have h: "shape4 1 3 2 2 scenario_pred" "shape3 1 2 2 scenario_target"
    "ignore_idx \<lparr>num_classes = 3, ignore_idx = None\<rparr> = None"
    "(0::nat) < 1" "(0::nat) < 3" "(0::nat) < 2 * 2"
    by (simp_all add: shape4_def shape3_def scenario_pred_def scenario_target_def)
  have e: "accuracy \<lparr>num_classes = 3, ignore_idx = None\<rparr> scenario_pred scenario_target = Inr (Some 1)"
    by code_simp
  show ?thesis
    using h e accuracy_without_ignore[OF h] by blast
qed

subsection \<open>Shape mismatch\<close>

text \<open>
  Claim C7. When the batch sizes of \<open>pred\<close> and \<open>target\<close> differ,
  \<open>_make_confusion_matrix\<close> fails with the assertion error, and so does \<open>measure\<close>,
  which calls it first: no other error and no metric is produced, whatever the rest of
  the two arrays looks like.
\<close>

theorem shape_mismatch_assertion:
  "length pred \<noteq> length target \<Longrightarrow>
     make_confusion_matrix self pred target_dtype target = Inl AssertionError \<and>
     measure_metrics self pred target_dtype target = Inl AssertionError"
  by (simp add: make_confusion_matrix_def measure_metrics_def)

theorem shape_mismatch_assertion_witness:
  "length [[[[1::int, 2]], [[3, 0]]], [[[1, 2]], [[3, 0]]]] \<noteq> length [[[0::int, 1]]] \<and>
   make_confusion_matrix \<lparr>num_classes = 2, ignore_idx = None\<rparr>
     [[[[1::int, 2]], [[3, 0]]], [[[1, 2]], [[3, 0]]]] UInt8 [[[0, 1]]] = Inl AssertionError \<and>
   measure_metrics \<lparr>num_classes = 2, ignore_idx = None\<rparr>
     [[[[1::int, 2]], [[3, 0]]], [[[1, 2]], [[3, 0]]]] UInt8 [[[0, 1]]] = Inl AssertionError"
  using shape_mismatch_assertion
          [of "[[[[1::int, 2]], [[3, 0]]], [[[1, 2]], [[3, 0]]]]" "[[[0::int, 1]]]"
              "\<lparr>num_classes = 2, ignore_idx = None\<rparr>" UInt8]
  by simp

subsection \<open>Accuracy with \<open>ignore_idx\<close>: division by zero\<close>




subsection \<open>F1 score\<close>

text \<open>
  Claim C9. On two finite scalars \<open>f1score\<close> is \<open>2 * r * p / (r + p + 1e-8)\<close>, and it is
  symmetric in its two arguments (also when an argument is non-finite).
\<close>

theorem f1score_symmetric:
  "f1score (Some r) (Some p) = np_div (2 * r * p) (r + p + 1 / 10 ^ 8) \<and>
   f1score x y = f1score y x"
  by (cases x; cases y)
     (simp_all add: f1score_def np_div_def eps8_def add.commute mult.commute mult.left_commute)

subsection \<open>Accuracy with \<open>ignore_idx\<close>: the pooled ratio\<close>

text \<open>
  Claim C10. With \<open>ignore_idx\<close> configured and at least one pixel of the batch not
  ignored, \<open>accuracy\<close> returns one pooled ratio: the number of kept pixels of the whole
  batch at which the prediction is right, divided by the number of kept pixels of the
  whole batch. The claim adds that this is never the mean of the per-item fractions
  when the ignored pixels are spread unevenly over the items; that part holds only as
  "need not be": the second and third conjunct give a batch whose items keep 1 and 2
  pixels, where the pooled ratio is 2/3 and the mean of the per-item fractions 3/4,
  and the counterexample below gives a batch with the same labels where both are 1.
\<close>

theorem accuracy_with_ignore_pooled:
  assumes "shape4 N C H W pred" and "shape3 N H W target" and "ignore_idx self = Some ig"
    and "0 < C" and "\<exists>n<N. \<exists>h<H. \<exists>w<W. target ! n ! h ! w \<noteq> ig"
  shows "accuracy self pred target
           = Inr (Some (real (card {(n, h, w). n < N \<and> h < H \<and> w < W
                                     \<and> target ! n ! h ! w \<noteq> ig \<and> hit pred target n h w})
                        / real (card {(n, h, w). n < N \<and> h < H \<and> w < W \<and> target ! n ! h ! w \<noteq> ig}))) \<and>
         accuracy \<lparr>num_classes = 2, ignore_idx = Some 2\<rparr> pred_mixed uneven_target = Inr (Some (2 / 3)) \<and>
         per_item_mean 2 pred_mixed uneven_target 2 1 2 = Some (3 / 4)"
proof -
  have "card {(k, y, x). k < N \<and> y < H \<and> x < W \<and> target ! k ! y ! x \<noteq> ig} \<noteq> 0"
    using assms(5) kept_empty_iff[of N H W "\<lambda>k y x. target ! k ! y ! x \<noteq> ig"] by blast
  then have nz: "real (card {(k, y, x). k < N \<and> y < H \<and> x < W \<and> target ! k ! y ! x \<noteq> ig}) \<noteq> 0"
    by simp
  have "accuracy self pred target
           = Inr (np_div (real (card {(k, y, x). k < N \<and> y < H \<and> x < W
                                       \<and> target ! k ! y ! x \<noteq> ig \<and> hit pred target k y x}))
                         (real (card {(k, y, x). k < N \<and> y < H \<and> x < W \<and> target ! k ! y ! x \<noteq> ig})))"
    using assms(1,2,3,4) by (rule accuracy_ignore_closed_form)
  then have 1: "accuracy self pred target
           = Inr (Some (real (card {(n, h, w). n < N \<and> h < H \<and> w < W
                                     \<and> target ! n ! h ! w \<noteq> ig \<and> hit pred target n h w})
                        / real (card {(n, h, w). n < N \<and> h < H \<and> w < W \<and> target ! n ! h ! w \<noteq> ig})))"
    using nz by (simp add: np_div_def)
  have 2: "accuracy \<lparr>num_classes = 2, ignore_idx = Some 2\<rparr> pred_mixed uneven_target = Inr (Some (2 / 3))"
    by code_simp
  have 3: "per_item_mean 2 pred_mixed uneven_target 2 1 2 = Some (3 / 4)"
    unfolding per_item_mean_def card_grid_list by code_simp
  show ?thesis using 1 2 3 by blast
qed

theorem accuracy_with_ignore_pooled_witness:
  "shape4 2 2 1 2 pred_mixed \<and> shape3 2 1 2 uneven_target \<and>
   ignore_idx \<lparr>num_classes = 2, ignore_idx = Some 2\<rparr> = Some 2 \<and> (0::nat) < 2 \<and>
   uneven_target ! 0 ! 0 ! 0 \<noteq> 2 \<and>
   accuracy \<lparr>num_classes = 2, ignore_idx = Some 2\<rparr> pred_mixed uneven_target
     = Inr (Some (real (card {(n, h, w). n < 2 \<and> h < 1 \<and> w < 2
                               \<and> uneven_target ! n ! h ! w \<noteq> 2 \<and> hit pred_mixed uneven_target n h w})
                  / real (card {(n, h, w). n < 2 \<and> h < 1 \<and> w < 2 \<and> uneven_target ! n ! h ! w \<noteq> 2})))"
proof -
  have h: "shape4 2 2 1 2 pred_mixed" "shape3 2 1 2 uneven_target"
    "ignore_idx \<lparr>num_classes = 2, ignore_idx = Some 2\<rparr> = Some 2" "(0::nat) < 2"
    by (simp_all add: shape4_def shape3_def pred_mixed_def uneven_target_def)
  have z: "uneven_target ! 0 ! 0 ! 0 \<noteq> 2" by (simp add: uneven_target_def)
  have k: "\<exists>n<2. \<exists>h<1. \<exists>w<2. uneven_target ! n ! h ! w \<noteq> 2"
  proof -
    have "(0::nat) < 2 \<and> (0::nat) < 1 \<and> (0::nat) < 2 \<and> uneven_target ! 0 ! 0 ! 0 \<noteq> 2"
      using z by simp
    then show ?thesis by blast
  qed
  show ?thesis
    using h z accuracy_with_ignore_pooled[OF h k] by blast
qed

text \<open>
  The last part of the claim as stated fails here: item 0 keeps one pixel and item 1 keeps
  two, the prediction is right at all three, and the pooled ratio equals the mean of the
  per-item fractions.
\<close>

theorem accuracy_uneven_equal_counterexample:
  "card {(h, w). h < 1 \<and> w < 2 \<and> uneven_target ! 0 ! h ! w \<noteq> 2} = 1 \<and>
   card {(h, w). h < 1 \<and> w < 2 \<and> uneven_target ! 1 ! h ! w \<noteq> 2} = 2 \<and>
   accuracy \<lparr>num_classes = 2, ignore_idx = Some 2\<rparr> pred_right uneven_target = Inr (Some 1) \<and>
   per_item_mean 2 pred_right uneven_target 2 1 2 = Some 1"
  unfolding per_item_mean_def card_grid_list by code_simp

end
